theory Spec2Isabelle
  imports Complex_Main "HOL-Library.Monad_Syntax" "HOL-Library.Multiset"
begin

section \<open>Skin of the Orange: the notebook's computations\<close>

text \<open>
  The notebook loads two numeric tables and works on them with array operations.
  Floating-point numbers are idealised as reals throughout. A computation that raises
  an exception (an index out of range, a shape mismatch, a failing library call) or
  that yields no number (the accuracy of an empty sample) has the value \<open>None\<close>.
\<close>

subsection \<open>Two-dimensional arrays\<close>

text \<open>
  A two-dimensional array has a shape and its rows; the number of columns is part of
  the shape, so it is known also when there is no row.
\<close>

record ndarray =
  ncols :: nat
  rows :: "real list list"

definition wf_array :: "ndarray \<Rightarrow> bool" where
  "wf_array a \<longleftrightarrow> list_all (\<lambda>r. length r = ncols a) (rows a)"

text \<open>\<^verbatim>\<open>a[:, lo:hi]\<close>: a slice never raises, it is clipped to the shape.\<close>

definition slice_cols :: "nat \<Rightarrow> nat \<Rightarrow> ndarray \<Rightarrow> ndarray" where
  "slice_cols lo hi a =
     \<lparr>ncols = min hi (ncols a) - min lo (ncols a),
      rows = map (\<lambda>r. take (hi - lo) (drop lo r)) (rows a)\<rparr>"

text \<open>\<^verbatim>\<open>a[:, lo:]\<close>\<close>

definition slice_from :: "nat \<Rightarrow> ndarray \<Rightarrow> ndarray" where
  "slice_from lo a = \<lparr>ncols = ncols a - lo, rows = map (drop lo) (rows a)\<rparr>"

text \<open>\<^verbatim>\<open>a[:, j]\<close>: an IndexError when the array has no column \<open>j\<close>.\<close>

definition column :: "nat \<Rightarrow> ndarray \<Rightarrow> real list option" where
  "column j a = (if j < ncols a then Some (map (\<lambda>r. r ! j) (rows a)) else None)"

text \<open>\<^verbatim>\<open>a[mask, :]\<close> for a boolean mask with one entry for each row.\<close>

definition select_rows :: "bool list \<Rightarrow> ndarray \<Rightarrow> ndarray" where
  "select_rows msk a = a\<lparr>rows := map snd (filter fst (zip msk (rows a)))\<rparr>"

text \<open>\<^verbatim>\<open>v == c\<close> and \<^verbatim>\<open>m1 & m2\<close>, elementwise.\<close>

definition eq_mask :: "real list \<Rightarrow> real \<Rightarrow> bool list" where
  "eq_mask v c = map (\<lambda>x. x = c) v"

definition and_mask :: "bool list \<Rightarrow> bool list \<Rightarrow> bool list" where
  "and_mask m1 m2 = map2 (\<and>) m1 m2"

text \<open>\<^verbatim>\<open>np.vstack((a, b))\<close>: a ValueError when the numbers of columns differ.\<close>

definition vstack :: "ndarray \<Rightarrow> ndarray \<Rightarrow> ndarray option" where
  "vstack a b =
     (if ncols a = ncols b then Some \<lparr>ncols = ncols a, rows = rows a @ rows b\<rparr> else None)"

subsection \<open>Library routines\<close>

text \<open>
  \<^verbatim>\<open>accuracy_score(y_true, y_pred)\<close> is the fraction of positions at which the two label
  vectors agree. It raises a ValueError when the vectors differ in length, and when one
  of them is a continuous target, that is, holds a value that is not a whole number;
  on an empty sample the fraction is not a number.
\<close>

definition continuous_target :: "real list \<Rightarrow> bool" where
  "continuous_target y \<longleftrightarrow> list_ex (\<lambda>v. v \<noteq> real_of_int \<lfloor>v\<rfloor>) y"

definition accuracy_score :: "real list \<Rightarrow> real list \<Rightarrow> real option" where
  "accuracy_score y_true y_pred =
     (if length y_true \<noteq> length y_pred \<or> continuous_target y_true
         \<or> continuous_target y_pred \<or> y_true = [] then None
      else Some (real (length (filter (\<lambda>(t, p). t = p) (zip y_true y_pred)))
                 / real (length y_true)))"

text \<open>\<^verbatim>\<open>np.mean\<close>, \<^verbatim>\<open>np.std\<close> (with its default, zero delta degrees of freedom).\<close>

definition np_mean :: "real list \<Rightarrow> real" where
  "np_mean xs = sum_list xs / real (length xs)"

definition np_std :: "real list \<Rightarrow> real" where
  "np_std xs = sqrt (np_mean (map (\<lambda>x. \<bar>x - np_mean xs\<bar>\<^sup>2) xs))"

subsection \<open>Bayes error rate (cell 3)\<close>

text \<open>\<^verbatim>\<open>np.sum(features**2, axis=1)\<close>\<close>

definition row_sum_squares :: "ndarray \<Rightarrow> real list" where
  "row_sum_squares a = map (\<lambda>r. sum_list (map (\<lambda>x. x\<^sup>2) r)) (rows a)"

definition bayes_error_rate :: "ndarray \<Rightarrow> ndarray \<Rightarrow> real option" where
  "bayes_error_rate no_noise_ds six_noise_ds = do {
     ds \<leftarrow> vstack no_noise_ds (slice_cols 0 7 six_noise_ds);
     flag \<leftarrow> column 1 ds;
     let records = select_rows (eq_mask flag 1) ds;
     let features = slice_cols 3 7 records;
     let score = row_sum_squares features;
     let y_hat = map (\<lambda>s. 1 - 2 * of_bool (s \<le> 16 \<and> s \<ge> 9)) score;
     y_true \<leftarrow> column 2 records;
     acc \<leftarrow> accuracy_score y_true y_hat;
     Some (1 - acc)
   }"

subsection \<open>Classifiers of the libraries\<close>

text \<open>
  The support-vector classifier and the spline model are library code. One call builds
  a classifier from its keyword arguments, fits it on training features and labels and
  predicts on test features. The call may raise, and it may read and change state
  that the program does not see (a random generator of the library): the world \<open>'w\<close>.
\<close>

datatype pyval = Str string | Num real | Bool bool

type_synonym kwargs = "(string \<times> pyval) list"

type_synonym 'w classifier =
  "kwargs \<Rightarrow> ndarray \<Rightarrow> real list \<Rightarrow> ndarray \<Rightarrow> 'w \<Rightarrow> (real list \<times> 'w) option"

text \<open>
  \<^verbatim>\<open>SVC(C=C, max_iter=100000, **kwargs)\<close>: a TypeError when \<^verbatim>\<open>kwargs\<close> gives one of
  the two keywords a second time.
\<close>

definition svc_kwargs :: "real \<Rightarrow> kwargs \<Rightarrow> kwargs option" where
  "svc_kwargs c kw =
     (if ''C'' \<in> set (map fst kw) \<or> ''max_iter'' \<in> set (map fst kw) then None
      else Some ((''C'', Num c) # (''max_iter'', Num 100000) # kw))"

text \<open>\<^verbatim>\<open>np.linspace(start, stop, num)\<close>\<close>

definition linspace :: "real \<Rightarrow> real \<Rightarrow> nat \<Rightarrow> real list" where
  "linspace start stop num =
     map (\<lambda>i. start + real i * ((stop - start) / real (num - 1))) [0..<num]"

text \<open>
  \<^verbatim>\<open>ds[(ds[:, 0] == sim_id) & (ds[:, 1] == flag), :]\<close>, the selection of the training
  records (\<open>flag = 0\<close>) and of the test records (\<open>flag = 1\<close>) of a simulation.
\<close>

definition select_sim :: "ndarray \<Rightarrow> nat \<Rightarrow> real \<Rightarrow> ndarray option" where
  "select_sim ds sim_id flag = do {
     c0 \<leftarrow> column 0 ds;
     c1 \<leftarrow> column 1 ds;
     Some (select_rows (and_mask (eq_mask c0 (real sim_id)) (eq_mask c1 flag)) ds)
   }"

subsection \<open>Support vector classification (cell 4)\<close>

text \<open>
  The loop over the costs, with the accumulator \<^verbatim>\<open>best_err, best_C\<close>. The method
  \<^verbatim>\<open>score\<close> of a classifier is the accuracy of its predictions. The classifiers of
  the library raise on an empty test sample, so an accuracy that is not a number does
  not reach the comparison \<^verbatim>\<open>err < best_err\<close>.
\<close>

fun svc_sweep ::
  "'w classifier \<Rightarrow> kwargs \<Rightarrow> ndarray \<Rightarrow> ndarray \<Rightarrow> real list \<Rightarrow> real \<times> real \<Rightarrow> 'w
   \<Rightarrow> ((real \<times> real) \<times> 'w) option" where
  "svc_sweep SVC kw train_ds test_ds [] best w = Some (best, w)"
| "svc_sweep SVC kw train_ds test_ds (c # cs) (best_err, best_C) w = do {
     args \<leftarrow> svc_kwargs c kw;
     y_train \<leftarrow> column 2 train_ds;
     y_test \<leftarrow> column 2 test_ds;
     (y_pred, w') \<leftarrow> SVC args (slice_from 3 train_ds) y_train (slice_from 3 test_ds) w;
     score \<leftarrow> accuracy_score y_test y_pred;
     let err = 1 - score;
     svc_sweep SVC kw train_ds test_ds cs
       (if err < best_err then (err, c) else (best_err, best_C)) w'
   }"

text \<open>The loop over the simulations, with the array \<^verbatim>\<open>error_rates\<close>.\<close>

fun svc_simulations ::
  "'w classifier \<Rightarrow> kwargs \<Rightarrow> ndarray \<Rightarrow> nat list \<Rightarrow> real list \<Rightarrow> 'w
   \<Rightarrow> (real list \<times> 'w) option" where
  "svc_simulations SVC kw ds [] error_rates w = Some (error_rates, w)"
| "svc_simulations SVC kw ds (sim_id # sims) error_rates w = do {
     train_ds \<leftarrow> select_sim ds sim_id 0;
     test_ds \<leftarrow> select_sim ds sim_id 1;
     ((best_err, best_C), w') \<leftarrow>
        svc_sweep SVC kw train_ds test_ds (linspace 0.01 5 20) (1, 0) w;
     svc_simulations SVC kw ds sims (error_rates[sim_id := best_err]) w'
   }"

definition estimate_svc_on_data ::
  "'w classifier \<Rightarrow> kwargs \<Rightarrow> ndarray \<Rightarrow> 'w \<Rightarrow> ((real \<times> real) \<times> 'w) option" where
  "estimate_svc_on_data SVC kw ds w = do {
     (error_rates, w') \<leftarrow> svc_simulations SVC kw ds [0..<50] (replicate 50 0) w;
     Some ((np_mean error_rates, np_std error_rates / sqrt 50), w')
   }"

definition estimate_svc_without_and_with_noise ::
  "'w classifier \<Rightarrow> kwargs \<Rightarrow> ndarray \<Rightarrow> ndarray \<Rightarrow> 'w
   \<Rightarrow> ((real \<times> real \<times> real \<times> real) \<times> 'w) option" where
  "estimate_svc_without_and_with_noise SVC kw no_noise_ds six_noise_ds w = do {
     ((no_noise_err, no_noise_std), w1) \<leftarrow> estimate_svc_on_data SVC kw no_noise_ds w;
     ((six_noise_err, six_noise_std), w2) \<leftarrow> estimate_svc_on_data SVC kw six_noise_ds w1;
     Some ((no_noise_err, no_noise_std, six_noise_err, six_noise_std), w2)
   }"

subsection \<open>MARS (cell 7)\<close>

definition earth_kwargs :: kwargs where
  "earth_kwargs =
     [(''max_terms'', Num 20), (''max_degree'', Num 4), (''enable_pruning'', Bool True)]"

text \<open>\<^verbatim>\<open>np.sign\<close> is \<open>sgn\<close>: the sign of zero is zero.\<close>

fun mars_simulations ::
  "'w classifier \<Rightarrow> ndarray \<Rightarrow> nat list \<Rightarrow> real list \<Rightarrow> 'w \<Rightarrow> (real list \<times> 'w) option" where
  "mars_simulations Earth ds [] error_rates w = Some (error_rates, w)"
| "mars_simulations Earth ds (sim_id # sims) error_rates w = do {
     train_ds \<leftarrow> select_sim ds sim_id 0;
     test_ds \<leftarrow> select_sim ds sim_id 1;
     y_train \<leftarrow> column 2 train_ds;
     (y_cont, w') \<leftarrow> Earth earth_kwargs (slice_from 3 train_ds) y_train (slice_from 3 test_ds) w;
     let y_hat = map sgn y_cont;
     y_test \<leftarrow> column 2 test_ds;
     acc \<leftarrow> accuracy_score y_test y_hat;
     mars_simulations Earth ds sims (error_rates[sim_id := 1 - acc]) w'
   }"

definition estimate_mars_on_data ::
  "'w classifier \<Rightarrow> ndarray \<Rightarrow> 'w \<Rightarrow> ((real \<times> real) \<times> 'w) option" where
  "estimate_mars_on_data Earth ds w = do {
     (error_rates, w') \<leftarrow> mars_simulations Earth ds [0..<50] (replicate 50 0) w;
     Some ((np_mean error_rates, np_std error_rates / sqrt 50), w')
   }"

subsection \<open>The results table (cells 5, 8 and 9)\<close>

text \<open>
  \<^verbatim>\<open>{x:.3f}\<close>, the decimal rendering of a number with three digits after the point, is
  the parameter \<open>fmt3\<close>; the alignment in a field of a given width is written out.
\<close>

definition ljust :: "nat \<Rightarrow> string \<Rightarrow> string" where
  "ljust n s = s @ replicate (n - length s) CHR '' ''"

definition rjust :: "nat \<Rightarrow> string \<Rightarrow> string" where
  "rjust n s = replicate (n - length s) CHR '' '' @ s"

definition names :: "string list" where
  "names = [''1  SV Classifier'', ''2  SVM/poly 2'', ''3  SVM/poly 5'',
            ''4  SVM/poly 10'', ''6  MARS'']"

definition method_row ::
  "(real \<Rightarrow> string) \<Rightarrow> string \<Rightarrow> real \<times> real \<times> real \<times> real \<Rightarrow> string" where
  "method_row fmt3 name result =
     (case result of (no_noise_err, no_noise_std, noise_err, noise_std) \<Rightarrow>
        ljust 20 name @ fmt3 no_noise_err @ '' ('' @ fmt3 no_noise_std @ '')''
        @ ''       '' @ fmt3 noise_err @ '' ('' @ fmt3 noise_std @ '')'')"

definition bayes_row :: "(real \<Rightarrow> string) \<Rightarrow> real \<Rightarrow> string" where
  "bayes_row fmt3 b = ''Bayes '' @ rjust 23 (fmt3 b) @ '' '' @ rjust 19 (fmt3 b)"

definition print_table ::
  "(real \<Rightarrow> string) \<Rightarrow> (real \<times> real \<times> real \<times> real) list \<Rightarrow> real \<Rightarrow> string list" where
  "print_table fmt3 results b =
     [''                             Test Error (SE)'',
      ''Methods           No Noise Features   Six Noise Features'',
      ''----------------------------------------------------------'']
     @ map2 (method_row fmt3) names results
     @ [bayes_row fmt3 b]"

text \<open>
  The notebook from the loaded arrays to its printed lines: cell 3 computes and prints
  the Bayes error rate, cells 5 and 8 run the estimators, cell 9 prints the table.
\<close>

definition poly_kwargs :: "real \<Rightarrow> kwargs" where
  "poly_kwargs d =
     [(''gamma'', Str ''scale''), (''kernel'', Str ''poly''), (''coef0'', Num 1),
      (''degree'', Num d)]"

definition notebook ::
  "'w classifier \<Rightarrow> 'w classifier \<Rightarrow> (real \<Rightarrow> string) \<Rightarrow> ndarray \<Rightarrow> ndarray \<Rightarrow> 'w
   \<Rightarrow> (string list \<times> 'w) option" where
  "notebook SVC Earth fmt3 no_noise_ds six_noise_ds w = do {
     b \<leftarrow> bayes_error_rate no_noise_ds six_noise_ds;
     let out3 = [fmt3 b];
     (linear_svc_results, w1) \<leftarrow>
        estimate_svc_without_and_with_noise SVC [(''kernel'', Str ''linear'')]
          no_noise_ds six_noise_ds w;
     (poly2_svc_results, w2) \<leftarrow>
        estimate_svc_without_and_with_noise SVC (poly_kwargs 2) no_noise_ds six_noise_ds w1;
     (poly5_svc_results, w3) \<leftarrow>
        estimate_svc_without_and_with_noise SVC (poly_kwargs 5) no_noise_ds six_noise_ds w2;
     (poly10_svc_results, w4) \<leftarrow>
        estimate_svc_without_and_with_noise SVC (poly_kwargs 10) no_noise_ds six_noise_ds w3;
     ((e1, s1), w5) \<leftarrow> estimate_mars_on_data Earth no_noise_ds w4;
     ((e2, s2), w6) \<leftarrow> estimate_mars_on_data Earth six_noise_ds w5;
     let mars_results = (e1, s1, e2, s2);
     let results = [linear_svc_results, poly2_svc_results, poly5_svc_results,
                    poly10_svc_results, mars_results];
     Some (out3 @ print_table fmt3 results b, w6)
   }"

subsection \<open>The decision rule and the error fraction, as the specification words them\<close>

definition squared_norm4 :: "real list \<Rightarrow> real" where
  "squared_norm4 r = (r ! 3)\<^sup>2 + (r ! 4)\<^sup>2 + (r ! 5)\<^sup>2 + (r ! 6)\<^sup>2"

text \<open>The class of the shell \<open>9 \<le> |x|\<^sup>2 \<le> 16\<close> carries the label \<open>-1\<close>, the other class \<open>1\<close>.\<close>

definition shell_rule :: "real list \<Rightarrow> real" where
  "shell_rule r = (if 9 \<le> squared_norm4 r \<and> squared_norm4 r \<le> 16 then - 1 else 1)"

definition misclassified_fraction :: "(real list \<Rightarrow> real) \<Rightarrow> real list list \<Rightarrow> real" where
  "misclassified_fraction rule recs =
     real (length (filter (\<lambda>r. rule r \<noteq> r ! 2) recs)) / real (length recs)"

definition pooled_test_records :: "ndarray \<Rightarrow> ndarray \<Rightarrow> real list list" where
  "pooled_test_records no_noise_ds six_noise_ds =
     filter (\<lambda>r. r ! 1 = 1) (rows no_noise_ds @ map (take 7) (rows six_noise_ds))"

subsection \<open>The records of a simulation\<close>

definition train_records :: "ndarray \<Rightarrow> nat \<Rightarrow> real list list" where
  "train_records ds sim_id = filter (\<lambda>r. r ! 0 = real sim_id \<and> r ! 1 = 0) (rows ds)"

definition test_records :: "ndarray \<Rightarrow> nat \<Rightarrow> real list list" where
  "test_records ds sim_id = filter (\<lambda>r. r ! 0 = real sim_id \<and> r ! 1 = 1) (rows ds)"

subsection \<open>Test errors of a classifier, as the specification words them\<close>

text \<open>
  A classifier computes a predictor when its predictions are that function of its
  inputs, whatever the hidden state. The test error of a call is the fraction of the test
  records of the simulation whose (thresholded) prediction differs from the label; it
  exists when there is a test record, one prediction for each, and all labels and
  predictions are whole numbers.
\<close>

type_synonym predictor = "kwargs \<Rightarrow> ndarray \<Rightarrow> real list \<Rightarrow> ndarray \<Rightarrow> real list option"

definition computes :: "'w classifier \<Rightarrow> predictor \<Rightarrow> bool" where
  "computes clf g \<longleftrightarrow> (\<forall>kw X y T w. map_option fst (clf kw X y T w) = g kw X y T)"

definition error_fraction :: "real list \<Rightarrow> real list \<Rightarrow> real" where
  "error_fraction y_true y_pred =
     real (length (filter (\<lambda>(t, p). t \<noteq> p) (zip y_true y_pred))) / real (length y_true)"

definition scorable :: "real list \<Rightarrow> real list \<Rightarrow> bool" where
  "scorable y_true y_pred \<longleftrightarrow>
     length y_pred = length y_true \<and> y_true \<noteq> []
     \<and> \<not> continuous_target y_true \<and> \<not> continuous_target y_pred"

definition labels :: "real list list \<Rightarrow> real list" where
  "labels recs = map (\<lambda>r. r ! 2) recs"

definition features :: "ndarray \<Rightarrow> real list list \<Rightarrow> ndarray" where
  "features ds recs = \<lparr>ncols = ncols ds - 3, rows = map (drop 3) recs\<rparr>"

definition test_error :: "predictor \<Rightarrow> (real \<Rightarrow> real) \<Rightarrow> kwargs \<Rightarrow> ndarray \<Rightarrow> nat \<Rightarrow> real option" where
  "test_error g th args ds sim_id =
     (if ncols ds < 3 then None
      else case g args (features ds (train_records ds sim_id)) (labels (train_records ds sim_id))
                  (features ds (test_records ds sim_id)) of
        None \<Rightarrow> None
      | Some y_pred \<Rightarrow>
          if scorable (labels (test_records ds sim_id)) (map th y_pred)
          then Some (error_fraction (labels (test_records ds sim_id)) (map th y_pred))
          else None)"

text \<open>
  The test error of the support-vector classifier with the cost \<open>c\<close>: the keyword
  arguments of the call are \<open>C = c\<close>, \<open>max_iter = 100000\<close> and the given ones, which
  must not name these two again.
\<close>

definition svc_test_error :: "predictor \<Rightarrow> kwargs \<Rightarrow> ndarray \<Rightarrow> nat \<Rightarrow> real \<Rightarrow> real option" where
  "svc_test_error g kw ds sim_id c =
     (if ''C'' \<in> set (map fst kw) \<or> ''max_iter'' \<in> set (map fst kw) then None
      else test_error g id ((''C'', Num c) # (''max_iter'', Num 100000) # kw) ds sim_id)"

definition svc_min_error :: "predictor \<Rightarrow> kwargs \<Rightarrow> ndarray \<Rightarrow> nat \<Rightarrow> real option" where
  "svc_min_error g kw ds sim_id =
     map_option (\<lambda>errs. Min (set errs))
       (those (map (svc_test_error g kw ds sim_id) (linspace 0.01 5 20)))"

definition store_all :: "nat list \<Rightarrow> real list \<Rightarrow> real list \<Rightarrow> real list" where
  "store_all sims es error_rates = fold (\<lambda>(s, e) r. r[s := e]) (zip sims es) error_rates"

subsection \<open>Mean and standard deviations, as the specification words them\<close>

definition arithmetic_mean :: "real list \<Rightarrow> real" where
  "arithmetic_mean xs = sum_list xs / real (length xs)"

definition population_std :: "real list \<Rightarrow> real" where
  "population_std xs =
     sqrt (sum_list (map (\<lambda>x. (x - arithmetic_mean xs)\<^sup>2) xs) / real (length xs))"

definition sample_std :: "real list \<Rightarrow> real" where
  "sample_std xs =
     sqrt (sum_list (map (\<lambda>x. (x - arithmetic_mean xs)\<^sup>2) xs) / real (length xs - 1))"

subsection \<open>A classifier that records its calls\<close>

text \<open>
  The hidden state of this classifier is the list of the calls made so far: the
  keyword arguments, the training features and the training labels of each.
\<close>

definition logged :: "predictor \<Rightarrow> (kwargs \<times> ndarray \<times> real list) list classifier" where
  "logged g kw X y T calls = map_option (\<lambda>p. (p, calls @ [(kw, X, y)])) (g kw X y T)"

subsection \<open>An example: constant classifiers on a small table\<close>

text \<open>
  The table holds, for each of the 50 simulations, one training record and one test
  record with \<open>k\<close> feature columns; the test record of simulation 0 has the label
  \<open>-1\<close>, all others the label 1. A constant classifier predicts the same value for
  every test record.
\<close>

definition constant_predictor :: "real \<Rightarrow> predictor" where
  "constant_predictor v kw X y T = Some (map (\<lambda>_. v) (rows T))"

definition constant_clf :: "real \<Rightarrow> 'w classifier" where
  "constant_clf v kw X y T w = Some (map (\<lambda>_. v) (rows T), w)"

definition demo_label :: "nat \<Rightarrow> real" where
  "demo_label i = (if i = 0 then - 1 else 1)"

definition demo_rows :: "nat \<Rightarrow> nat \<Rightarrow> real list list" where
  "demo_rows k n =
     concat (map (\<lambda>i. [[real i, 0, 1] @ replicate k 0,
                        [real i, 1, demo_label i] @ replicate k 0]) [0..<n])"

definition demo_ds :: "nat \<Rightarrow> ndarray" where
  "demo_ds k = \<lparr>ncols = 3 + k, rows = demo_rows k 50\<rparr>"

definition demo_rates :: "real list" where
  "demo_rates = 1 # replicate 49 0"

subsection \<open>An example with errors that depend on the cost\<close>

text \<open>
  Each of the 50 simulations of this table has one training record and four test
  records with one feature column. The predictor reads the cost \<open>C\<close> from its
  keyword arguments and predicts 1 for a test record whose feature is below the cost,
  and \<open>-1\<close> otherwise; it fails without a cost. A stateless classifier leaves the
  hidden state as it is.
\<close>

definition stateless :: "predictor \<Rightarrow> 'w classifier" where
  "stateless g kw X y T w = map_option (\<lambda>p. (p, w)) (g kw X y T)"

definition cost_predictor :: predictor where
  "cost_predictor kw X y T =
     (case map_of kw ''C'' of
        Some (Num c) \<Rightarrow> Some (map (\<lambda>r. if r ! 0 < c then 1 else - 1) (rows T))
      | _ \<Rightarrow> None)"

definition sweep_rows :: "nat \<Rightarrow> real list list" where
  "sweep_rows n =
     concat (map (\<lambda>i. [[real i, 0, 1, 0], [real i, 1, - 1, 0], [real i, 1, 1, 0],
                        [real i, 1, 1, 2], [real i, 1, - 1, 4]]) [0..<n])"

definition sweep_ds :: ndarray where
  "sweep_ds = \<lparr>ncols = 4, rows = sweep_rows 50\<rparr>"

section \<open>Properties\<close>

subsection \<open>Array operations\<close>

lemma select_rows_filter:
  "map snd (filter fst (zip (map p xs) xs)) = filter p xs"
  by (induction xs) auto

lemma select_eq_mask:
  "j < ncols a \<Longrightarrow> column j a = Some v \<Longrightarrow>
   rows (select_rows (eq_mask v c) a) = filter (\<lambda>r. r ! j = c) (rows a)"
proof -
  assume "j < ncols a" and "column j a = Some v"
  then have v: "v = map (\<lambda>r. r ! j) (rows a)"
    by (simp add: column_def)
  have "eq_mask v c = map (\<lambda>r. r ! j = c) (rows a)"
    by (simp add: v eq_mask_def)
  then show ?thesis
    by (simp add: select_rows_def select_rows_filter)
qed

lemma signs_not_continuous:
  assumes "\<forall>y \<in> set ys. y = - 1 \<or> y = 0 \<or> y = 1"
  shows "\<not> continuous_target ys"
  using assms by (auto simp: continuous_target_def list_ex_iff)

lemma accuracy_complement:
  assumes "length ys = length ps" and "ys \<noteq> []"
    and "\<not> continuous_target ys" and "\<not> continuous_target ps"
  shows "accuracy_score ys ps =
         Some (1 - real (length (filter (\<lambda>(t, p). t \<noteq> p) (zip ys ps))) / real (length ys))"
proof -
  let ?z = "zip ys ps"
  have "length (filter (\<lambda>(t, p). t = p) zs) + length (filter (\<lambda>(t, p). t \<noteq> p) zs) = length zs"
    for zs :: "(real \<times> real) list"
    by (induction zs) auto
  then have "length (filter (\<lambda>(t, p). t = p) ?z) + length (filter (\<lambda>(t, p). t \<noteq> p) ?z) = length ?z" .
  then have "real (length (filter (\<lambda>(t, p). t = p) ?z)) =
             real (length ys) - real (length (filter (\<lambda>(t, p). t \<noteq> p) ?z))"
    using assms by simp
  moreover have "real (length ys) \<noteq> 0"
    using assms(2) by simp
  ultimately show ?thesis
    using assms by (simp add: accuracy_score_def diff_divide_distrib)
qed

subsection \<open>The Bayes error rate\<close>

lemma sum_squares_informative:
  assumes "length r = 7"
  shows "sum_list (map (\<lambda>x. x\<^sup>2) (take 4 (drop 3 r))) = squared_norm4 r"
proof -
  from assms obtain a b c d e f g where "r = [a, b, c, d, e, f, g]"
    by (auto simp: numeral_eq_Suc length_Suc_conv)
  then show ?thesis
    by (simp add: squared_norm4_def)
qed

lemma count_disagree_map:
  "length (filter (\<lambda>(t, p). t \<noteq> p) (zip (map f xs) (map g xs))) =
   length (filter (\<lambda>r. g r \<noteq> f r) xs)"
  by (induction xs) auto

lemma pooled_rows_length:
  assumes "wf_array a" "wf_array b" "ncols a = 7" "7 \<le> ncols b"
    and "r \<in> set (pooled_test_records a b)"
  shows "length r = 7"
  using assms by (auto simp: wf_array_def pooled_test_records_def list_all_iff)

lemma bayes_error_rate_pooled:
  assumes wf: "wf_array no_noise_ds" "wf_array six_noise_ds"
    and shape: "ncols no_noise_ds = 7" "7 \<le> ncols six_noise_ds"
  shows "bayes_error_rate no_noise_ds six_noise_ds =
         (if pooled_test_records no_noise_ds six_noise_ds = []
             \<or> continuous_target (map (\<lambda>r. r ! 2) (pooled_test_records no_noise_ds six_noise_ds))
          then None
          else Some (misclassified_fraction shell_rule
                       (pooled_test_records no_noise_ds six_noise_ds)))"
proof -
  let ?recs = "pooled_test_records no_noise_ds six_noise_ds"
  define ds where "ds = \<lparr>ncols = 7, rows = rows no_noise_ds @ map (take 7) (rows six_noise_ds)\<rparr>"
  have stack: "vstack no_noise_ds (slice_cols 0 7 six_noise_ds) = Some ds"
    using shape by (simp add: vstack_def slice_cols_def ds_def)
  have flag: "column 1 ds = Some (map (\<lambda>r. r ! 1) (rows ds))"
    by (simp add: column_def ds_def)
  define records where "records = select_rows (eq_mask (map (\<lambda>r. r ! 1) (rows ds)) 1) ds"
  have recs: "rows records = ?recs"
    unfolding records_def using select_eq_mask [OF _ flag, of 1]
    by (simp add: ds_def pooled_test_records_def)
  have nc: "ncols records = 7"
    by (simp add: records_def select_rows_def ds_def)
  have len: "\<And>r. r \<in> set ?recs \<Longrightarrow> length r = 7"
    using pooled_rows_length [OF wf shape] .
  have "sum_list (map power2 (take 4 (drop 3 r))) = squared_norm4 r" if "r \<in> set ?recs" for r
    using sum_squares_informative [OF len [OF that]] .
  then have score: "row_sum_squares (slice_cols 3 7 records) = map squared_norm4 ?recs"
    by (simp add: row_sum_squares_def slice_cols_def recs)
  have y_hat: "map (\<lambda>s. 1 - 2 * of_bool (s \<le> 16 \<and> s \<ge> 9))
                 (row_sum_squares (slice_cols 3 7 records)) = map shell_rule ?recs"
    by (auto simp: score shell_rule_def)
  have y_true: "column 2 records = Some (map (\<lambda>r. r ! 2) ?recs)"
    by (simp add: column_def nc recs)
  have rule: "\<not> continuous_target (map shell_rule ?recs)"
    by (rule signs_not_continuous) (auto simp: shell_rule_def)
  have acc: "accuracy_score (map (\<lambda>r. r ! 2) ?recs) (map shell_rule ?recs) =
             (if ?recs = [] \<or> continuous_target (map (\<lambda>r. r ! 2) ?recs) then None
              else Some (1 - misclassified_fraction shell_rule ?recs))"
  proof (cases "?recs = [] \<or> continuous_target (map (\<lambda>r. r ! 2) ?recs)")
    case True
    then show ?thesis
      by (auto simp: accuracy_score_def)
  next
    case False
    with rule show ?thesis
      by (simp add: accuracy_complement count_disagree_map misclassified_fraction_def)
  qed
  show ?thesis
    unfolding bayes_error_rate_def
    by (simp add: stack flag Let_def records_def [symmetric] y_hat y_true acc
          del: One_nat_def)
qed

text \<open>
  Claim C1. On tables of the documented shape (seven columns without noise, at least
  seven with noise) holding at least one test record, with the class labels \<open>-1\<close>
  and \<open>1\<close> in column 2 of the test records, the Bayes error rate is the fraction of
  the pooled test records whose true label in column 2 differs from the label of the
  decision rule: \<open>-1\<close> exactly when the sum of the squares of the columns 3 to 6 lies
  in the closed interval from 9 to 16, and \<open>1\<close> otherwise.
\<close>

theorem bayes_error_rate_is_shell_rule_fraction:
  assumes "wf_array no_noise_ds" "wf_array six_noise_ds"
    and "ncols no_noise_ds = 7" "7 \<le> ncols six_noise_ds"
    and "pooled_test_records no_noise_ds six_noise_ds \<noteq> []"
    and "\<forall>r \<in> set (pooled_test_records no_noise_ds six_noise_ds). r ! 2 = - 1 \<or> r ! 2 = 1"
  shows "bayes_error_rate no_noise_ds six_noise_ds =
         Some (misclassified_fraction shell_rule (pooled_test_records no_noise_ds six_noise_ds))"
proof -
  have "\<not> continuous_target (map (\<lambda>r. r ! 2) (pooled_test_records no_noise_ds six_noise_ds))"
    using assms(6) by (intro signs_not_continuous) auto
  with assms(5) show ?thesis
    by (simp add: bayes_error_rate_pooled [OF assms(1-4)])
qed

theorem bayes_error_rate_is_shell_rule_fraction_witness:
  "bayes_error_rate
     \<lparr>ncols = 7, rows = [[0, 1, - 1, 3, 0, 0, 0], [0, 1, 1, 3, 0, 0, 0], [0, 0, 1, 0, 0, 0, 0]]\<rparr>
     \<lparr>ncols = 13, rows = [[0, 1, 1, 0, 0, 0, 0, 5, 5, 5, 5, 5, 5]]\<rparr> = Some (1 / 3)"
  using bayes_error_rate_is_shell_rule_fraction
    [of "\<lparr>ncols = 7, rows = [[0, 1, - 1, 3, 0, 0, 0], [0, 1, 1, 3, 0, 0, 0], [0, 0, 1, 0, 0, 0, 0]]\<rparr>"
        "\<lparr>ncols = 13, rows = [[0, 1, 1, 0, 0, 0, 0, 5, 5, 5, 5, 5, 5]]\<rparr>"]
  by (simp add: wf_array_def pooled_test_records_def misclassified_fraction_def
      shell_rule_def squared_norm4_def)

subsection \<open>Training and test records\<close>

lemma select_rows_and_mask:
  "map snd (filter fst (zip (and_mask (map p xs) (map q xs)) xs)) = filter (\<lambda>r. p r \<and> q r) xs"
  unfolding and_mask_def by (induction xs) auto

lemma select_sim_eq:
  "select_sim ds sim_id flag =
     (if 1 < ncols ds
      then Some (ds\<lparr>rows := filter (\<lambda>r. r ! 0 = real sim_id \<and> r ! 1 = flag) (rows ds)\<rparr>)
      else None)"
proof (cases "1 < ncols ds")
  case True
  then have c: "column 0 ds = Some (map (\<lambda>r. r ! 0) (rows ds))"
                "column 1 ds = Some (map (\<lambda>r. r ! 1) (rows ds))"
    by (simp_all add: column_def)
  have "and_mask (eq_mask (map (\<lambda>r. r ! 0) (rows ds)) (real sim_id))
                 (eq_mask (map (\<lambda>r. r ! 1) (rows ds)) flag) =
        and_mask (map (\<lambda>r. r ! 0 = real sim_id) (rows ds)) (map (\<lambda>r. r ! 1 = flag) (rows ds))"
    by (simp add: eq_mask_def comp_def)
  then show ?thesis
    using True
    by (simp add: select_sim_def c select_rows_def select_rows_and_mask del: One_nat_def)
next
  case False
  then show ?thesis
    by (auto simp: select_sim_def column_def)
qed

text \<open>
  Claim C7. When every record's flag in column 1 is 0 or 1, the training selection and
  the test selection of a simulation have no record in common, and together they are
  the records of that simulation, each as often as the table holds it.
\<close>

theorem train_test_partition:
  assumes "select_sim ds sim_id 0 = Some train_ds"
    and "select_sim ds sim_id 1 = Some test_ds"
    and "\<forall>r \<in> set (rows ds). r ! 1 = 0 \<or> r ! 1 = 1"
  shows "set (rows train_ds) \<inter> set (rows test_ds) = {}
       \<and> set (rows train_ds) \<union> set (rows test_ds) = {r \<in> set (rows ds). r ! 0 = real sim_id}
       \<and> mset (rows train_ds) + mset (rows test_ds) =
           mset (filter (\<lambda>r. r ! 0 = real sim_id) (rows ds))"
proof -
  have tr: "rows train_ds = filter (\<lambda>r. r ! 0 = real sim_id \<and> r ! 1 = 0) (rows ds)"
    and te: "rows test_ds = filter (\<lambda>r. r ! 0 = real sim_id \<and> r ! 1 = 1) (rows ds)"
    using assms(1,2) by (auto simp: select_sim_eq split: if_splits)
  have disj: "set (rows train_ds) \<inter> set (rows test_ds) = {}"
    by (auto simp: tr te)
  have un: "set (rows train_ds) \<union> set (rows test_ds) = {r \<in> set (rows ds). r ! 0 = real sim_id}"
    using assms(3) by (auto simp: tr te)
  have "mset (filter (\<lambda>r. r ! 0 = real sim_id \<and> r ! 1 = 0) xs) +
        mset (filter (\<lambda>r. r ! 0 = real sim_id \<and> r ! 1 = 1) xs) =
        mset (filter (\<lambda>r. r ! 0 = real sim_id) xs)"
    if "\<forall>r \<in> set xs. r ! 1 = 0 \<or> r ! 1 = (1::real)" for xs :: "real list list"
    using that by (induction xs) auto
  then have "mset (rows train_ds) + mset (rows test_ds) =
             mset (filter (\<lambda>r. r ! 0 = real sim_id) (rows ds))"
    using assms(3) by (simp add: tr te)
  with disj un show ?thesis by simp
qed

theorem train_test_partition_witness:
  "select_sim \<lparr>ncols = 4, rows = [[0, 0, 1, 2], [0, 1, 1, 3], [1, 0, - 1, 4], [0, 1, - 1, 5]]\<rparr> 0 0
     = Some \<lparr>ncols = 4, rows = [[0, 0, 1, 2]]\<rparr>
   \<and> select_sim \<lparr>ncols = 4, rows = [[0, 0, 1, 2], [0, 1, 1, 3], [1, 0, - 1, 4], [0, 1, - 1, 5]]\<rparr> 0 1
     = Some \<lparr>ncols = 4, rows = [[0, 1, 1, 3], [0, 1, - 1, 5]]\<rparr>
   \<and> set [[0, 0, 1, 2]] \<inter> set [[0, 1, 1, 3], [0, 1, - 1, 5]] = ({} :: real list set)
   \<and> mset [[0, 0, 1, 2]] + mset [[0, 1, 1, 3], [0, 1, - 1, 5]] =
       mset (filter (\<lambda>r. r ! 0 = real 0)
              [[0, 0, 1, 2], [0, 1, 1, 3], [1, 0, - 1, 4], [0, 1, - 1, 5 :: real]])"
  using train_test_partition
    [of "\<lparr>ncols = 4, rows = [[0, 0, 1, 2], [0, 1, 1, 3], [1, 0, - 1, 4], [0, 1, - 1, 5]]\<rparr>" 0
        "\<lparr>ncols = 4, rows = [[0, 0, 1, 2]]\<rparr>"
        "\<lparr>ncols = 4, rows = [[0, 1, 1, 3], [0, 1, - 1, 5]]\<rparr>"]
  by (simp add: select_sim_eq)

subsection \<open>The sweep over the costs and the loop over the simulations\<close>

lemma length_labels [simp]: "length (labels recs) = length recs"
  by (simp add: labels_def)

lemma labels_eq_Nil [simp]: "labels recs = [] \<longleftrightarrow> recs = []"
  by (simp add: labels_def)

lemma accuracy_error_fraction:
  "accuracy_score ys ps = (if scorable ys ps then Some (1 - error_fraction ys ps) else None)"
proof (cases "scorable ys ps")
  case True
  then show ?thesis
    by (simp add: scorable_def accuracy_complement error_fraction_def)
next
  case False
  then show ?thesis
    by (auto simp: scorable_def accuracy_score_def)
qed

lemma scorable_length:
  "scorable ys (map th ps) \<Longrightarrow> length ps = length ys \<and> ys \<noteq> []"
  by (simp add: scorable_def)

lemma error_fraction_bounds:
  "0 \<le> error_fraction ys ps" "error_fraction ys ps \<le> 1"
proof -
  show "0 \<le> error_fraction ys ps"
    by (simp add: error_fraction_def)
  have "length (filter (\<lambda>(t, p). t \<noteq> p) (zip ys ps)) \<le> length ys"
    by (rule order_trans [OF length_filter_le]) simp
  then show "error_fraction ys ps \<le> 1"
    by (cases "ys = []") (simp_all add: error_fraction_def divide_le_eq)
qed

lemma computes_None:
  "computes clf g \<Longrightarrow> g kw X y T = None \<Longrightarrow> clf kw X y T w = None"
proof -
  assume c: "computes clf g" and n: "g kw X y T = None"
  from c have "map_option fst (clf kw X y T w) = g kw X y T"
    unfolding computes_def by blast
  with n show ?thesis by simp
qed

lemma computes_Some:
  "computes clf g \<Longrightarrow> g kw X y T = Some p \<Longrightarrow> \<exists>w'. clf kw X y T w = Some (p, w')"
proof -
  assume c: "computes clf g" and n: "g kw X y T = Some p"
  from c have "map_option fst (clf kw X y T w) = g kw X y T"
    unfolding computes_def by blast
  with n show ?thesis by auto
qed

lemma svc_test_error_args:
  "svc_test_error g kw ds s c =
     (case svc_kwargs c kw of None \<Rightarrow> None | Some args \<Rightarrow> test_error g id args ds s)"
  by (simp add: svc_test_error_def svc_kwargs_def)

lemma svc_sweep_min:
  assumes "computes SVC g"
  shows "map_option (fst \<circ> fst)
           (svc_sweep SVC kw (ds\<lparr>rows := train_records ds s\<rparr>) (ds\<lparr>rows := test_records ds s\<rparr>)
              cs (be, bc) w) =
         map_option (\<lambda>errs. fold min errs be) (those (map (svc_test_error g kw ds s) cs))"
proof (induction cs arbitrary: be bc w)
  case Nil
  show ?case by simp
next
  case (Cons c cs)
  let ?tr = "ds\<lparr>rows := train_records ds s\<rparr>" and ?te = "ds\<lparr>rows := test_records ds s\<rparr>"
  show ?case
  proof (cases "svc_kwargs c kw")
    case None
    then show ?thesis by (simp add: svc_test_error_args)
  next
    case (Some args)
    show ?thesis
    proof (cases "ncols ds < 3")
      case True
      then show ?thesis
        by (simp add: Some svc_test_error_args test_error_def column_def)
    next
      case False
      then have col: "column 2 ?tr = Some (labels (train_records ds s))"
        "column 2 ?te = Some (labels (test_records ds s))"
        by (simp_all add: column_def labels_def)
      have sl: "slice_from 3 ?tr = features ds (train_records ds s)"
        "slice_from 3 ?te = features ds (test_records ds s)"
        by (simp_all add: slice_from_def features_def)
      show ?thesis
      proof (cases "g args (features ds (train_records ds s)) (labels (train_records ds s))
                      (features ds (test_records ds s))")
        case None
        from computes_None [OF assms None] show ?thesis
          using False by (simp add: Some col sl svc_test_error_args test_error_def None)
      next
        case (Some p)
        note gp = this
        from computes_Some [OF assms Some] obtain w1 where
          call: "SVC args (features ds (train_records ds s)) (labels (train_records ds s))
                   (features ds (test_records ds s)) w = Some (p, w1)" by blast
        show ?thesis
        proof (cases "scorable (labels (test_records ds s)) p")
          case False
          then have "accuracy_score (labels (test_records ds s)) p = None"
            by (auto simp: accuracy_error_fraction)
          moreover have "svc_test_error g kw ds s c = None"
            using False \<open>\<not> ncols ds < 3\<close>
            by (auto simp: \<open>svc_kwargs c kw = Some args\<close> svc_test_error_args test_error_def gp)
          ultimately show ?thesis
            by (simp add: \<open>svc_kwargs c kw = Some args\<close> col sl call)
        next
          case True
          define err where "err = error_fraction (labels (test_records ds s)) p"
          have acc: "accuracy_score (labels (test_records ds s)) p = Some (1 - err)"
            using True by (simp add: accuracy_error_fraction err_def)
          have te: "svc_test_error g kw ds s c = Some err"
            using True \<open>\<not> ncols ds < 3\<close>
            by (simp add: \<open>svc_kwargs c kw = Some args\<close> svc_test_error_args test_error_def gp err_def)
          obtain be' bc' where upd: "(if err < be then (err, c) else (be, bc)) = (be', bc')"
            and be': "be' = min err be"
            by (cases "err < be") auto
          have "map_option (fst \<circ> fst) (svc_sweep SVC kw ?tr ?te (c # cs) (be, bc) w) =
                map_option (fst \<circ> fst) (svc_sweep SVC kw ?tr ?te cs (be', bc') w1)"
            by (simp add: \<open>svc_kwargs c kw = Some args\<close> col sl call acc upd)
          also have "\<dots> = map_option (\<lambda>errs. fold min errs be')
                             (those (map (svc_test_error g kw ds s) cs))"
            by (rule Cons.IH)
          also have "\<dots> = map_option (\<lambda>errs. fold min errs be)
                             (those (map (svc_test_error g kw ds s) (c # cs)))"
            by (simp add: te be' option.map_comp comp_def)
          finally show ?thesis .
        qed
      qed
    qed
  qed
qed

lemma those_map_Some:
  "those (map f xs) = Some ys \<longleftrightarrow> list_all2 (\<lambda>x y. f x = Some y) xs ys"
proof (induction xs arbitrary: ys)
  case Nil
  show ?case by auto
next
  case (Cons x xs)
  show ?case
    by (cases "f x"; cases ys) (auto simp: Cons.IH list_all2_Cons1 split: option.splits)
qed

lemma fold_min_Min:
  fixes errs :: "real list"
  assumes "errs \<noteq> []" and "\<forall>e \<in> set errs. e \<le> b"
  shows "fold min errs b = Min (set errs)"
proof -
  have "fold min errs b = Min (set (b # errs))"
    by (rule Min.set_eq_fold [symmetric])
  also have "\<dots> = min b (Min (set errs))"
    using assms(1) by simp
  also have "\<dots> = Min (set errs)"
  proof -
    from assms(1) obtain e where e: "e \<in> set errs"
      by (cases errs) auto
    then have "Min (set errs) \<le> e"
      by simp
    also have "e \<le> b"
      using assms(2) e by blast
    finally show ?thesis
      by (simp add: min_absorb2)
  qed
  finally show ?thesis .
qed

lemma test_error_Some:
  assumes "test_error g th args ds s = Some e"
  shows "\<exists>y_pred. g args (features ds (train_records ds s)) (labels (train_records ds s))
                     (features ds (test_records ds s)) = Some y_pred
           \<and> length y_pred = length (test_records ds s)
           \<and> test_records ds s \<noteq> []
           \<and> e = error_fraction (labels (test_records ds s)) (map th y_pred)"
  using assms
  by (auto simp: test_error_def dest: scorable_length split: if_splits option.splits)

lemma test_error_bounds:
  assumes "test_error g th args ds s = Some e"
  shows "0 \<le> e \<and> e \<le> 1"
  using assms error_fraction_bounds
  by (auto simp: test_error_def split: if_splits option.splits)

lemma svc_test_error_bounds:
  assumes "svc_test_error g kw ds s c = Some e"
  shows "0 \<le> e \<and> e \<le> 1"
  using assms test_error_bounds
  by (auto simp: svc_test_error_def split: if_splits)

lemma grid_Cons: "\<exists>c cs. linspace a b 20 = c # cs"
proof -
  have "linspace a b 20 \<noteq> []"
    by (simp add: linspace_def)
  then show ?thesis
    by (simp add: neq_Nil_conv)
qed

lemma svc_min_error_narrow:
  assumes "ncols ds < 3"
  shows "svc_min_error g kw ds s = None"
proof -
  obtain c cs where "linspace 0.01 5 20 = c # cs"
    using grid_Cons by blast
  moreover have "svc_test_error g kw ds s c = None"
    using assms by (simp add: svc_test_error_def test_error_def split: option.splits)
  ultimately show ?thesis
    by (simp add: svc_min_error_def)
qed

lemma svc_sweep_Min:
  assumes "computes SVC g" and "cs \<noteq> []"
  shows "map_option (fst \<circ> fst)
           (svc_sweep SVC kw (ds\<lparr>rows := train_records ds s\<rparr>) (ds\<lparr>rows := test_records ds s\<rparr>)
              cs (1, 0) w) =
         map_option (\<lambda>errs. Min (set errs)) (those (map (svc_test_error g kw ds s) cs))"
proof -
  have "map_option (\<lambda>errs. fold min errs 1) (those (map (svc_test_error g kw ds s) cs)) =
        map_option (\<lambda>errs. Min (set errs)) (those (map (svc_test_error g kw ds s) cs))"
  proof (cases "those (map (svc_test_error g kw ds s) cs)")
    case None
    then show ?thesis by simp
  next
    case (Some errs)
    then have l: "list_all2 (\<lambda>c e. svc_test_error g kw ds s c = Some e) cs errs"
      by (simp add: those_map_Some)
    then have "length errs = length cs"
      by (simp add: list_all2_lengthD)
    with assms(2) have ne: "errs \<noteq> []"
      by auto
    have "\<forall>e \<in> set errs. e \<le> 1"
    proof
      fix e assume "e \<in> set errs"
      then obtain i where i: "i < length errs" "errs ! i = e"
        by (auto simp: in_set_conv_nth)
      from list_all2_nthD2 [OF l i(1)] have "svc_test_error g kw ds s (cs ! i) = Some e"
        by (simp only: i(2))
      then show "e \<le> 1"
        using svc_test_error_bounds by blast
    qed
    with ne have "fold min errs 1 = Min (set errs)"
      by (rule fold_min_Min)
    then show ?thesis
      by (simp add: Some)
  qed
  then show ?thesis
    by (simp add: svc_sweep_min [OF assms(1)])
qed

lemma svc_sweep_grid:
  assumes "computes SVC g"
  shows "map_option (fst \<circ> fst)
           (svc_sweep SVC kw (ds\<lparr>rows := train_records ds s\<rparr>) (ds\<lparr>rows := test_records ds s\<rparr>)
              (linspace 0.01 5 20) (1, 0) w) = svc_min_error g kw ds s"
  unfolding svc_min_error_def
  using grid_Cons [of "0.01" 5] by (intro svc_sweep_Min [OF assms]) auto

lemma svc_simulations_closed:
  assumes "computes SVC g"
  shows "map_option fst (svc_simulations SVC kw ds sims rates w) =
         map_option (\<lambda>es. store_all sims es rates) (those (map (svc_min_error g kw ds) sims))"
proof (induction sims arbitrary: rates w)
  case Nil
  show ?case by (simp add: store_all_def)
next
  case (Cons s sims)
  show ?case
  proof (cases "1 < ncols ds")
    case False
    then have "svc_simulations SVC kw ds (s # sims) rates w = None"
      by (simp add: select_sim_eq)
    moreover from False have "svc_min_error g kw ds s = None"
      by (intro svc_min_error_narrow) simp
    ultimately show ?thesis
      by simp
  next
    case True
    then have sel: "select_sim ds s 0 = Some (ds\<lparr>rows := train_records ds s\<rparr>)"
      "select_sim ds s 1 = Some (ds\<lparr>rows := test_records ds s\<rparr>)"
      by (simp_all add: select_sim_eq train_records_def test_records_def)
    let ?sw = "svc_sweep SVC kw (ds\<lparr>rows := train_records ds s\<rparr>) (ds\<lparr>rows := test_records ds s\<rparr>)
                 (linspace 0.01 5 20) (1, 0) w"
    show ?thesis
    proof (cases ?sw)
      case None
      with svc_sweep_grid [OF assms, of kw ds s w] have "svc_min_error g kw ds s = None"
        by simp
      with None show ?thesis
        by (simp add: sel)
    next
      case (Some res)
      obtain e c w1 where res: "res = ((e, c), w1)"
        by (metis surj_pair)
      with Some svc_sweep_grid [OF assms, of kw ds s w] have m: "svc_min_error g kw ds s = Some e"
        by simp
      have "map_option fst (svc_simulations SVC kw ds (s # sims) rates w) =
            map_option fst (svc_simulations SVC kw ds sims (rates[s := e]) w1)"
        using Some by (simp add: sel res)
      also have "\<dots> = map_option (\<lambda>es. store_all sims es (rates[s := e]))
                          (those (map (svc_min_error g kw ds) sims))"
        by (rule Cons.IH)
      also have "\<dots> = map_option (\<lambda>es. store_all (s # sims) es rates)
                          (those (map (svc_min_error g kw ds) (s # sims)))"
        by (simp add: m option.map_comp comp_def store_all_def)
      finally show ?thesis .
    qed
  qed
qed

lemma store_all_upt_aux:
  "k + length es \<le> length r \<Longrightarrow>
   store_all [k..<k + length es] es r = take k r @ es @ drop (k + length es) r"
proof (induction es arbitrary: k r)
  case Nil
  show ?case by (simp add: store_all_def)
next
  case (Cons e es)
  have up: "[k..<Suc (k + n)] = k # [Suc k..<Suc (k + n)]" for n
    by (rule upt_conv_Cons) simp
  have "store_all [k..<k + length (e # es)] (e # es) r =
        store_all [Suc k..<Suc k + length es] es (r[k := e])"
    by (simp add: store_all_def up del: upt_Suc)
  also have "\<dots> = take (Suc k) (r[k := e]) @ es @ drop (Suc k + length es) (r[k := e])"
    using Cons.prems by (intro Cons.IH) simp
  also have "\<dots> = take k r @ (e # es) @ drop (k + length (e # es)) r"
    using Cons.prems by (simp add: take_Suc_conv_app_nth)
  finally show ?case .
qed

lemma store_all_upt:
  assumes "length es = n" and "length r = n"
  shows "store_all [0..<n] es r = es"
  using store_all_upt_aux [of 0 es r] assms by simp

lemma those_map_length:
  "those (map f xs) = Some ys \<Longrightarrow> length ys = length xs"
  by (simp add: those_map_Some list_all2_lengthD)

lemma svc_error_rates:
  assumes "computes SVC g"
  shows "map_option fst (svc_simulations SVC kw ds [0..<n] (replicate n 0) w) =
         those (map (svc_min_error g kw ds) [0..<n])"
proof (cases "those (map (svc_min_error g kw ds) [0..<n])")
  case None
  then show ?thesis
    by (simp add: svc_simulations_closed [OF assms])
next
  case (Some es)
  from those_map_length [OF this] have "length es = n"
    by simp
  then have "store_all [0..<n] es (replicate n 0) = es"
    by (intro store_all_upt) simp_all
  then show ?thesis
    by (simp add: svc_simulations_closed [OF assms] Some)
qed

subsection \<open>The stored error of the support-vector sweep\<close>

lemma those_map_nth:
  assumes "those (map f xs) = Some ys" and "i < length xs"
  shows "f (xs ! i) = Some (ys ! i)"
proof -
  from assms(1) have "list_all2 (\<lambda>x y. f x = Some y) xs ys"
    by (simp add: those_map_Some)
  from list_all2_nthD [OF this assms(2)] show ?thesis .
qed

lemma grid_length: "length (linspace a b n) = n"
  by (simp add: linspace_def)

lemma grid_nth: "i < n \<Longrightarrow> linspace a b n ! i = a + real i * ((b - a) / real (n - 1))"
  by (simp add: linspace_def)

text \<open>
  Claim C2. For a classifier that computes a predictor, the error that the support-vector
  estimator stores for a simulation is the minimum of twenty test errors. The error
  number \<open>i\<close>, for \<open>i = 0, \<dots>, 19\<close>, is the fraction of the test records of that
  simulation whose label differs from the prediction of the classifier built with the
  keyword arguments \<open>C = 0.01 + i (5 - 0.01) / 19\<close>, \<open>max_iter = 100000\<close> and the
  given ones, and fit on the training features and labels of that simulation. So the
  stored error is at most the error of every single cost of the grid.
\<close>

theorem svc_error_is_grid_minimum:
  assumes "computes SVC g"
    and "svc_simulations SVC kw ds [0..<50] (replicate 50 0) w = Some (error_rates, w')"
    and "sim_id < 50"
  shows "\<exists>errs. length errs = 20
           \<and> (\<forall>i<20. \<exists>y_pred.
                 g ((''C'', Num (0.01 + real i * ((5 - 0.01) / 19)))
                      # (''max_iter'', Num 100000) # kw)
                   (features ds (train_records ds sim_id)) (labels (train_records ds sim_id))
                   (features ds (test_records ds sim_id)) = Some y_pred
               \<and> length y_pred = length (test_records ds sim_id)
               \<and> errs ! i = error_fraction (labels (test_records ds sim_id)) y_pred)
           \<and> error_rates ! sim_id = Min (set errs)
           \<and> (\<forall>i<20. error_rates ! sim_id \<le> errs ! i)"
proof -
  let ?grid = "linspace 0.01 5 20"
  have "those (map (svc_min_error g kw ds) [0..<50]) = Some error_rates"
    using svc_error_rates [OF assms(1), of kw ds 50 w] assms(2) by simp
  from those_map_nth [OF this, of sim_id] assms(3)
  have "svc_min_error g kw ds sim_id = Some (error_rates ! sim_id)"
    by simp
  then obtain errs where errs: "those (map (svc_test_error g kw ds sim_id) ?grid) = Some errs"
    and m: "error_rates ! sim_id = Min (set errs)"
    unfolding svc_min_error_def by auto
  have len: "length errs = 20"
    using those_map_length [OF errs] by (simp add: grid_length)
  have each: "\<exists>y_pred.
                 g ((''C'', Num (0.01 + real i * ((5 - 0.01) / 19)))
                      # (''max_iter'', Num 100000) # kw)
                   (features ds (train_records ds sim_id)) (labels (train_records ds sim_id))
                   (features ds (test_records ds sim_id)) = Some y_pred
               \<and> length y_pred = length (test_records ds sim_id)
               \<and> errs ! i = error_fraction (labels (test_records ds sim_id)) y_pred"
    if "i < 20" for i
  proof -
    have "svc_test_error g kw ds sim_id (0.01 + real i * ((5 - 0.01) / 19)) = Some (errs ! i)"
      using those_map_nth [OF errs, of i] that grid_nth [of i 20 "0.01" 5]
      by (simp add: grid_length)
    then have "test_error g id ((''C'', Num (0.01 + real i * ((5 - 0.01) / 19)))
                 # (''max_iter'', Num 100000) # kw) ds sim_id = Some (errs ! i)"
      by (simp add: svc_test_error_def split: if_splits)
    from test_error_Some [OF this] show ?thesis
      by auto
  qed
  have "error_rates ! sim_id \<le> errs ! i" if "i < 20" for i
    unfolding m using that len by (intro Min_le) simp_all
  with len each m show ?thesis
    by blast
qed

subsection \<open>The loop of the spline estimator\<close>

lemma mars_simulations_closed:
  assumes "computes Earth g"
  shows "map_option fst (mars_simulations Earth ds sims rates w) =
         map_option (\<lambda>es. store_all sims es rates)
           (those (map (test_error g sgn earth_kwargs ds) sims))"
proof (induction sims arbitrary: rates w)
  case Nil
  show ?case by (simp add: store_all_def)
next
  case (Cons s sims)
  let ?tr = "ds\<lparr>rows := train_records ds s\<rparr>" and ?te = "ds\<lparr>rows := test_records ds s\<rparr>"
  let ?X = "features ds (train_records ds s)" and ?y = "labels (train_records ds s)"
  let ?T = "features ds (test_records ds s)"
  show ?case
  proof (cases "ncols ds < 3")
    case True
    have "mars_simulations Earth ds (s # sims) rates w = None"
      using True by (simp add: select_sim_eq column_def)
    moreover have "test_error g sgn earth_kwargs ds s = None"
      using True by (simp add: test_error_def)
    ultimately show ?thesis by simp
  next
    case False
    then have sel: "select_sim ds s 0 = Some ?tr" "select_sim ds s 1 = Some ?te"
      by (simp_all add: select_sim_eq train_records_def test_records_def)
    from False have col: "column 2 ?tr = Some ?y" "column 2 ?te = Some (labels (test_records ds s))"
      by (simp_all add: column_def labels_def)
    have sl: "slice_from 3 ?tr = ?X" "slice_from 3 ?te = ?T"
      by (simp_all add: slice_from_def features_def)
    show ?thesis
    proof (cases "g earth_kwargs ?X ?y ?T")
      case None
      from computes_None [OF assms None]
      have "mars_simulations Earth ds (s # sims) rates w = None"
        by (simp add: sel col sl)
      moreover have "test_error g sgn earth_kwargs ds s = None"
        using False by (simp add: test_error_def None)
      ultimately show ?thesis by simp
    next
      case (Some p)
      from computes_Some [OF assms Some] obtain w1 where
        call: "Earth earth_kwargs ?X ?y ?T w = Some (p, w1)" by blast
      show ?thesis
      proof (cases "scorable (labels (test_records ds s)) (map sgn p)")
        case no: False
        then have "accuracy_score (labels (test_records ds s)) (map sgn p) = None"
          by (auto simp: accuracy_error_fraction)
        then have "mars_simulations Earth ds (s # sims) rates w = None"
          by (simp add: sel col sl call)
        moreover have "test_error g sgn earth_kwargs ds s = None"
          using no False by (auto simp: test_error_def Some)
        ultimately show ?thesis by simp
      next
        case True
        define err where "err = error_fraction (labels (test_records ds s)) (map sgn p)"
        have acc: "accuracy_score (labels (test_records ds s)) (map sgn p) = Some (1 - err)"
          using True by (simp add: accuracy_error_fraction err_def)
        have te: "test_error g sgn earth_kwargs ds s = Some err"
          using True False by (simp add: test_error_def Some err_def)
        have "map_option fst (mars_simulations Earth ds (s # sims) rates w) =
              map_option fst (mars_simulations Earth ds sims (rates[s := err]) w1)"
          by (simp add: sel col sl call acc)
        also have "\<dots> = map_option (\<lambda>es. store_all sims es (rates[s := err]))
                            (those (map (test_error g sgn earth_kwargs ds) sims))"
          by (rule Cons.IH)
        also have "\<dots> = map_option (\<lambda>es. store_all (s # sims) es rates)
                            (those (map (test_error g sgn earth_kwargs ds) (s # sims)))"
          by (simp add: te option.map_comp comp_def store_all_def)
        finally show ?thesis .
      qed
    qed
  qed
qed

lemma mars_error_rates:
  assumes "computes Earth g"
  shows "map_option fst (mars_simulations Earth ds [0..<n] (replicate n 0) w) =
         those (map (test_error g sgn earth_kwargs ds) [0..<n])"
proof (cases "those (map (test_error g sgn earth_kwargs ds) [0..<n])")
  case None
  then show ?thesis
    by (simp add: mars_simulations_closed [OF assms])
next
  case (Some es)
  from those_map_length [OF this] have "length es = n"
    by simp
  then have "store_all [0..<n] es (replicate n 0) = es"
    by (intro store_all_upt) simp_all
  then show ?thesis
    by (simp add: mars_simulations_closed [OF assms] Some)
qed


subsection \<open>Bounds that hold for every classifier\<close>

lemma accuracy_score_range:
  assumes "accuracy_score ys ps = Some acc"
  shows "0 \<le> 1 - acc \<and> 1 - acc \<le> 1"
  using assms error_fraction_bounds [of ys ps]
  by (auto simp: accuracy_error_fraction split: if_splits)

lemma svc_sweep_range:
  assumes "svc_sweep SVC kw train_ds test_ds cs (be, bc) w = Some ((e, c), w')"
    and "0 \<le> be" "be \<le> 1"
  shows "0 \<le> e \<and> e \<le> 1"
  using assms
proof (induction cs arbitrary: be bc w)
  case Nil
  then show ?case by simp
next
  case (Cons a cs)
  from Cons.prems(1) obtain acc w1 where
    acc: "0 \<le> 1 - acc \<and> 1 - acc \<le> 1"
    and rest: "svc_sweep SVC kw train_ds test_ds cs
                 (if 1 - acc < be then (1 - acc, a) else (be, bc)) w1 = Some ((e, c), w')"
    by (auto simp: bind_eq_Some_conv Let_def dest: accuracy_score_range)
  show ?case
  proof (cases "1 - acc < be")
    case True
    with rest acc show ?thesis
      by (intro Cons.IH [of "1 - acc" a w1]) simp_all
  next
    case False
    with rest Cons.prems(2,3) show ?thesis
      by (intro Cons.IH [of be bc w1]) simp_all
  qed
qed

lemma set_update_range:
  assumes "\<forall>x \<in> set xs. P x" and "P v"
  shows "\<forall>x \<in> set (xs[i := v]). P x"
  using assms set_update_subset_insert [of xs i v] by auto

lemma svc_simulations_range:
  assumes "svc_simulations SVC kw ds sims rates w = Some (rates', w')"
    and "\<forall>x \<in> set rates. 0 \<le> x \<and> x \<le> 1"
  shows "length rates' = length rates \<and> (\<forall>x \<in> set rates'. 0 \<le> x \<and> x \<le> 1)"
  using assms
proof (induction sims arbitrary: rates w)
  case Nil
  then show ?case by simp
next
  case (Cons s sims)
  from Cons.prems(1) obtain train_ds test_ds e c w1 where
    sw: "svc_sweep SVC kw train_ds test_ds (linspace 0.01 5 20) (1, 0) w = Some ((e, c), w1)"
    and rest: "svc_simulations SVC kw ds sims (rates[s := e]) w1 = Some (rates', w')"
    by (auto simp: bind_eq_Some_conv)
  from svc_sweep_range [OF sw] have "0 \<le> e \<and> e \<le> 1"
    by simp
  with Cons.prems(2) have "\<forall>x \<in> set (rates[s := e]). 0 \<le> x \<and> x \<le> 1"
    by (intro set_update_range) simp_all
  from Cons.IH [OF rest this] show ?case
    by simp
qed

lemma mars_simulations_range:
  assumes "mars_simulations Earth ds sims rates w = Some (rates', w')"
    and "\<forall>x \<in> set rates. 0 \<le> x \<and> x \<le> 1"
  shows "length rates' = length rates \<and> (\<forall>x \<in> set rates'. 0 \<le> x \<and> x \<le> 1)"
  using assms
proof (induction sims arbitrary: rates w)
  case Nil
  then show ?case by simp
next
  case (Cons s sims)
  from Cons.prems(1) obtain acc w1 where
    acc: "0 \<le> 1 - acc \<and> 1 - acc \<le> 1"
    and rest: "mars_simulations Earth ds sims (rates[s := 1 - acc]) w1 = Some (rates', w')"
    by (auto simp: bind_eq_Some_conv Let_def dest: accuracy_score_range)
  from Cons.prems(2) acc have "\<forall>x \<in> set (rates[s := 1 - acc]). 0 \<le> x \<and> x \<le> 1"
    by (intro set_update_range) simp_all
  from Cons.IH [OF rest this] show ?case
    by simp
qed

lemma np_mean_range:
  assumes "xs \<noteq> []" and "\<forall>x \<in> set xs. 0 \<le> x \<and> x \<le> 1"
  shows "0 \<le> np_mean xs \<and> np_mean xs \<le> 1"
proof -
  have "0 \<le> sum_list xs"
    using assms(2) by (intro sum_list_nonneg) simp
  moreover have "sum_list xs \<le> sum_list (map (\<lambda>_. 1) xs)"
    using assms(2) by (induction xs) auto
  then have "sum_list xs \<le> real (length xs)"
    by (simp add: sum_list_triv)
  ultimately show ?thesis
    using assms(1) by (simp add: np_mean_def divide_le_eq)
qed

lemma np_std_range:
  assumes "xs \<noteq> []" and "\<forall>x \<in> set xs. 0 \<le> x \<and> x \<le> 1"
  shows "0 \<le> np_std xs \<and> np_std xs \<le> 1"
proof -
  let ?m = "np_mean xs"
  let ?d = "map (\<lambda>x. \<bar>x - ?m\<bar>\<^sup>2) xs"
  from np_mean_range [OF assms] have m: "0 \<le> ?m" "?m \<le> 1"
    by simp_all
  have "0 \<le> y \<and> y \<le> 1" if "y \<in> set ?d" for y
  proof -
    from that obtain x where x: "x \<in> set xs" and y: "y = \<bar>x - ?m\<bar>\<^sup>2"
      by auto
    from x assms(2) m have "\<bar>x - ?m\<bar> \<le> 1"
      by (auto simp: abs_le_iff)
    then have "\<bar>x - ?m\<bar>\<^sup>2 \<le> 1\<^sup>2"
      by (intro power_mono) simp_all
    then show ?thesis
      by (simp add: y)
  qed
  then have "\<forall>y \<in> set ?d. 0 \<le> y \<and> y \<le> 1"
    by blast
  moreover have "?d \<noteq> []"
    using assms(1) by simp
  ultimately have "0 \<le> np_mean ?d \<and> np_mean ?d \<le> 1"
    by (rule np_mean_range [rotated])
  then show ?thesis
    by (simp add: np_std_def)
qed

subsection \<open>Mean error and standard error\<close>

lemma estimate_svc_on_data_eq:
  "estimate_svc_on_data SVC kw ds w = Some ((m, s), w') \<longleftrightarrow>
   (\<exists>rates. svc_simulations SVC kw ds [0..<50] (replicate 50 0) w = Some (rates, w')
      \<and> m = np_mean rates \<and> s = np_std rates / sqrt 50)"
  by (auto simp: estimate_svc_on_data_def bind_eq_Some_conv)

lemma estimate_mars_on_data_eq:
  "estimate_mars_on_data Earth ds w = Some ((m, s), w') \<longleftrightarrow>
   (\<exists>rates. mars_simulations Earth ds [0..<50] (replicate 50 0) w = Some (rates, w')
      \<and> m = np_mean rates \<and> s = np_std rates / sqrt 50)"
  by (auto simp: estimate_mars_on_data_def bind_eq_Some_conv)

lemma svc_simulations_fifty:
  assumes "svc_simulations SVC kw ds [0..<50] (replicate 50 0) w = Some (rates, w')"
  shows "length rates = 50 \<and> (\<forall>x \<in> set rates. 0 \<le> x \<and> x \<le> 1)"
  using svc_simulations_range [OF assms] by simp

lemma mars_simulations_fifty:
  assumes "mars_simulations Earth ds [0..<50] (replicate 50 0) w = Some (rates, w')"
  shows "length rates = 50 \<and> (\<forall>x \<in> set rates. 0 \<le> x \<and> x \<le> 1)"
  using mars_simulations_range [OF assms] by simp

lemma mean_std_fifty:
  assumes "length rates = 50"
  shows "np_mean rates = sum_list rates / 50"
    and "np_std rates = sqrt (sum_list (map (\<lambda>x. (x - sum_list rates / 50)\<^sup>2) rates) / 50)"
  using assms by (simp_all add: np_mean_def np_std_def)

text \<open>
  Claim C3. Each estimator returns a pair \<open>(m, s)\<close> exactly when its loop over the
  simulations returns its array of error rates; the array has 50 entries, \<open>m\<close> is
  their sum divided by 50, and \<open>s\<close> is the square root of the mean (divisor 50) of the
  squared deviations from \<open>m\<close>, divided by the square root of 50.
\<close>

theorem estimators_return_mean_and_standard_error:
  "(estimate_svc_on_data SVC kw ds w = Some ((m, s), w') \<longleftrightarrow>
     (\<exists>error_rates. svc_simulations SVC kw ds [0..<50] (replicate 50 0) w = Some (error_rates, w')
        \<and> length error_rates = 50
        \<and> m = sum_list error_rates / 50
        \<and> s = sqrt (sum_list (map (\<lambda>x. (x - m)\<^sup>2) error_rates) / 50) / sqrt 50))
   \<and> (estimate_mars_on_data Earth ds w = Some ((m, s), w') \<longleftrightarrow>
     (\<exists>error_rates. mars_simulations Earth ds [0..<50] (replicate 50 0) w = Some (error_rates, w')
        \<and> length error_rates = 50
        \<and> m = sum_list error_rates / 50
        \<and> s = sqrt (sum_list (map (\<lambda>x. (x - m)\<^sup>2) error_rates) / 50) / sqrt 50))"
proof -
  have "(\<exists>rates. svc_simulations SVC kw ds [0..<50] (replicate 50 0) w = Some (rates, w')
            \<and> m = np_mean rates \<and> s = np_std rates / sqrt 50) \<longleftrightarrow>
        (\<exists>rates. svc_simulations SVC kw ds [0..<50] (replicate 50 0) w = Some (rates, w')
            \<and> length rates = 50 \<and> m = sum_list rates / 50
            \<and> s = sqrt (sum_list (map (\<lambda>x. (x - m)\<^sup>2) rates) / 50) / sqrt 50)"
    using svc_simulations_fifty mean_std_fifty by metis
  moreover
  have "(\<exists>rates. mars_simulations Earth ds [0..<50] (replicate 50 0) w = Some (rates, w')
            \<and> m = np_mean rates \<and> s = np_std rates / sqrt 50) \<longleftrightarrow>
        (\<exists>rates. mars_simulations Earth ds [0..<50] (replicate 50 0) w = Some (rates, w')
            \<and> length rates = 50 \<and> m = sum_list rates / 50
            \<and> s = sqrt (sum_list (map (\<lambda>x. (x - m)\<^sup>2) rates) / 50) / sqrt 50)"
    using mars_simulations_fifty mean_std_fifty by metis
  ultimately show ?thesis
    by (simp only: estimate_svc_on_data_eq estimate_mars_on_data_eq)
qed

text \<open>
  Claim C6. Whatever the classifier does, a mean error that an estimator returns lies
  between 0 and 1, and the standard error it returns lies between 0 and \<open>1 / \<surd>50\<close>:
  every stored error rate is one minus an accuracy, so it lies between 0 and 1.
\<close>

theorem estimates_within_bounds:
  "(estimate_svc_on_data SVC kw ds w = Some ((m, s), w') \<longrightarrow>
      0 \<le> m \<and> m \<le> 1 \<and> 0 \<le> s \<and> s \<le> 1 / sqrt 50)
   \<and> (estimate_mars_on_data Earth ds w = Some ((m, s), w') \<longrightarrow>
      0 \<le> m \<and> m \<le> 1 \<and> 0 \<le> s \<and> s \<le> 1 / sqrt 50)"
proof -
  have bounds: "0 \<le> np_mean rates \<and> np_mean rates \<le> 1
        \<and> 0 \<le> np_std rates / sqrt 50 \<and> np_std rates / sqrt 50 \<le> 1 / sqrt 50"
    if "length rates = 50 \<and> (\<forall>x \<in> set rates. 0 \<le> x \<and> x \<le> 1)" for rates
  proof -
    from that have ne: "rates \<noteq> []" and r: "\<forall>x \<in> set rates. 0 \<le> x \<and> x \<le> 1"
      by auto
    from np_std_range [OF ne r] have "0 \<le> np_std rates / sqrt 50"
      and "np_std rates / sqrt 50 \<le> 1 / sqrt 50"
      by (simp_all add: divide_right_mono)
    with np_mean_range [OF ne r] show ?thesis
      by simp
  qed
  have "0 \<le> m \<and> m \<le> 1 \<and> 0 \<le> s \<and> s \<le> 1 / sqrt 50"
    if "estimate_svc_on_data SVC kw ds w = Some ((m, s), w')"
  proof -
    from that obtain rates where
      "svc_simulations SVC kw ds [0..<50] (replicate 50 0) w = Some (rates, w')"
      and ms: "m = np_mean rates" "s = np_std rates / sqrt 50"
      unfolding estimate_svc_on_data_eq by blast
    from bounds [OF svc_simulations_fifty [OF this(1)]] show ?thesis
      by (simp only: ms)
  qed
  moreover have "0 \<le> m \<and> m \<le> 1 \<and> 0 \<le> s \<and> s \<le> 1 / sqrt 50"
    if "estimate_mars_on_data Earth ds w = Some ((m, s), w')"
  proof -
    from that obtain rates where
      "mars_simulations Earth ds [0..<50] (replicate 50 0) w = Some (rates, w')"
      and ms: "m = np_mean rates" "s = np_std rates / sqrt 50"
      unfolding estimate_mars_on_data_eq by blast
    from bounds [OF mars_simulations_fifty [OF this(1)]] show ?thesis
      by (simp only: ms)
  qed
  ultimately show ?thesis
    by blast
qed

subsection \<open>Determinism and the standard error\<close>

lemma np_std_population: "np_std xs = population_std xs"
  by (simp add: np_std_def np_mean_def population_std_def arithmetic_mean_def)

lemma estimate_svc_pure:
  assumes "computes SVC g"
  shows "map_option fst (estimate_svc_on_data SVC kw ds w) =
         map_option (\<lambda>rates. (np_mean rates, np_std rates / sqrt 50))
           (those (map (svc_min_error g kw ds) [0..<50]))"
proof -
  have "map_option fst (estimate_svc_on_data SVC kw ds w) =
        map_option (\<lambda>rates. (np_mean rates, np_std rates / sqrt 50))
          (map_option fst (svc_simulations SVC kw ds [0..<50] (replicate 50 0) w))"
    by (cases "svc_simulations SVC kw ds [0..<50] (replicate 50 0) w")
       (auto simp: estimate_svc_on_data_def)
  then show ?thesis
    by (simp only: svc_error_rates [OF assms])
qed

lemma estimate_mars_pure:
  assumes "computes Earth g"
  shows "map_option fst (estimate_mars_on_data Earth ds w) =
         map_option (\<lambda>rates. (np_mean rates, np_std rates / sqrt 50))
           (those (map (test_error g sgn earth_kwargs ds) [0..<50]))"
proof -
  have "map_option fst (estimate_mars_on_data Earth ds w) =
        map_option (\<lambda>rates. (np_mean rates, np_std rates / sqrt 50))
          (map_option fst (mars_simulations Earth ds [0..<50] (replicate 50 0) w))"
    by (cases "mars_simulations Earth ds [0..<50] (replicate 50 0) w")
       (auto simp: estimate_mars_on_data_def)
  then show ?thesis
    by (simp only: mars_error_rates [OF assms])
qed

text \<open>
  Claim C9. When the fitting procedure computes a predictor, that is, when its
  predictions are a function of its inputs whatever its hidden state, two runs of an
  estimator on the same table with the same configuration return the same pair of mean
  error and standard error (or both fail), from whatever hidden states they start.
\<close>

theorem estimators_deterministic:
  assumes "computes SVC1 g" and "computes SVC2 g"
    and "computes Earth1 h" and "computes Earth2 h"
  shows "map_option fst (estimate_svc_on_data SVC1 kw ds w1) =
         map_option fst (estimate_svc_on_data SVC2 kw ds w2)
       \<and> map_option fst (estimate_mars_on_data Earth1 ds w1) =
         map_option fst (estimate_mars_on_data Earth2 ds w2)"
  by (simp only: estimate_svc_pure [OF assms(1)] estimate_svc_pure [OF assms(2)]
      estimate_mars_pure [OF assms(3)] estimate_mars_pure [OF assms(4)])

text \<open>
  Claim C8, as amended. The standard error that the estimator returns is the population
  standard deviation (divisor 50) of the 50 stored error rates, divided by the square
  root of their number.
\<close>

theorem standard_error_uses_population_std:
  assumes "estimate_svc_on_data SVC kw ds w = Some ((m, s), w')"
  shows "\<exists>error_rates.
           svc_simulations SVC kw ds [0..<50] (replicate 50 0) w = Some (error_rates, w')
         \<and> length error_rates = 50
         \<and> s = population_std error_rates / sqrt (real (length error_rates))"
proof -
  from assms obtain rates where
    run: "svc_simulations SVC kw ds [0..<50] (replicate 50 0) w = Some (rates, w')"
    and s: "s = np_std rates / sqrt 50"
    unfolding estimate_svc_on_data_eq by blast
  from svc_simulations_fifty [OF run] have "length rates = 50"
    by simp
  with run s show ?thesis
    by (auto simp: np_std_population)
qed

subsection \<open>The example evaluated\<close>

lemma computes_logged: "computes (logged g) g"
  by (simp add: computes_def logged_def option.map_comp comp_def option.map_ident)

lemma computes_constant: "computes (constant_clf v) (constant_predictor v)"
  by (simp add: computes_def constant_clf_def constant_predictor_def)

lemma demo_rows_Suc:
  "demo_rows k (Suc n) =
     demo_rows k n @ [[real n, 0, 1] @ replicate k 0, [real n, 1, demo_label n] @ replicate k 0]"
  by (simp add: demo_rows_def)

lemma demo_rows_train:
  "filter (\<lambda>r. r ! 0 = real s \<and> r ! 1 = 0) (demo_rows k n) =
     (if s < n then [[real s, 0, 1] @ replicate k 0] else [])"
  by (induction n) (auto simp: demo_rows_Suc less_Suc_eq, simp add: demo_rows_def)

lemma demo_rows_test:
  "filter (\<lambda>r. r ! 0 = real s \<and> r ! 1 = 1) (demo_rows k n) =
     (if s < n then [[real s, 1, demo_label s] @ replicate k 0] else [])"
  by (induction n) (auto simp: demo_rows_Suc less_Suc_eq, simp add: demo_rows_def)

lemma demo_train_records:
  "s < 50 \<Longrightarrow> train_records (demo_ds k) s = [[real s, 0, 1] @ replicate k 0]"
  using demo_rows_train [of s k 50] by (simp add: train_records_def demo_ds_def)

lemma demo_test_records:
  "s < 50 \<Longrightarrow> test_records (demo_ds k) s = [[real s, 1, demo_label s] @ replicate k 0]"
  using demo_rows_test [of s k 50] by (simp add: test_records_def demo_ds_def)

lemma demo_test_error:
  assumes "s < 50" and "th v = - 1 \<or> th v = 0 \<or> th v = 1"
  shows "test_error (constant_predictor v) th args (demo_ds k) s =
         Some (if demo_label s = th v then 0 else 1)"
proof -
  have "ncols (demo_ds k) \<ge> 3"
    by (simp add: demo_ds_def)
  moreover have "scorable [demo_label s] [th v]"
    using assms(2) by (auto simp: scorable_def demo_label_def intro!: signs_not_continuous)
  ultimately show ?thesis
    using assms(1)
    by (simp add: test_error_def demo_test_records constant_predictor_def features_def
        labels_def error_fraction_def)
qed

lemma those_map_const:
  assumes "\<forall>x \<in> set xs. f x = Some (h x)"
  shows "those (map f xs) = Some (map h xs)"
  using assms by (induction xs) simp_all

lemma demo_svc_min_error:
  assumes "s < 50" and "''C'' \<notin> set (map fst kw)" and "''max_iter'' \<notin> set (map fst kw)"
  shows "svc_min_error (constant_predictor 1) kw (demo_ds k) s = Some (if s = 0 then 1 else 0)"
proof -
  let ?e = "if s = 0 then 1 else 0 :: real"
  let ?grid = "linspace 0.01 5 20"
  have "svc_test_error (constant_predictor 1) kw (demo_ds k) s c = Some ?e" for c
    using assms by (simp add: svc_test_error_def demo_test_error demo_label_def)
  then have "those (map (svc_test_error (constant_predictor 1) kw (demo_ds k) s) ?grid) =
             Some (map (\<lambda>_. ?e) ?grid)"
    by (intro those_map_const) simp
  moreover have "set (map (\<lambda>_. ?e) ?grid) = {?e}"
    using grid_Cons [of "0.01" 5] by auto
  ultimately show ?thesis
    by (simp only: svc_min_error_def option.map Min_singleton)
qed

lemma demo_rates_eq: "map (\<lambda>s. if s = 0 then 1 else 0) [0..<50] = demo_rates"
proof -
  have "[0..<50] = 0 # [1..<50]"
    by (simp add: upt_conv_Cons)
  moreover have "map (\<lambda>s. if s = 0 then 1 else 0 :: real) [1..<50] = map (\<lambda>_. 0) [1..<50]"
    by (rule map_cong) auto
  ultimately show ?thesis
    by (simp add: demo_rates_def map_replicate_const)
qed

lemma demo_svc_rates:
  assumes "''C'' \<notin> set (map fst kw)" and "''max_iter'' \<notin> set (map fst kw)"
  shows "those (map (svc_min_error (constant_predictor 1) kw (demo_ds k)) [0..<50]) =
         Some demo_rates"
proof -
  have "those (map (svc_min_error (constant_predictor 1) kw (demo_ds k)) [0..<50]) =
        Some (map (\<lambda>s. if s = 0 then 1 else 0) [0..<50])"
    using assms by (intro those_map_const) (simp add: demo_svc_min_error)
  then show ?thesis
    by (simp only: demo_rates_eq)
qed

lemma demo_mars_rates:
  "those (map (test_error (constant_predictor 1) sgn earth_kwargs (demo_ds k)) [0..<50]) =
   Some demo_rates"
proof -
  have "those (map (test_error (constant_predictor 1) sgn earth_kwargs (demo_ds k)) [0..<50]) =
        Some (map (\<lambda>s. if s = 0 then 1 else 0) [0..<50])"
    by (intro those_map_const) (simp add: demo_test_error demo_label_def)
  then show ?thesis
    by (simp only: demo_rates_eq)
qed

lemma unit_run:
  fixes x :: "('a \<times> unit) option"
  shows "map_option fst x = Some r \<Longrightarrow> x = Some (r, ())"
  by (cases x) auto

lemma demo_svc_run:
  assumes "''C'' \<notin> set (map fst kw)" and "''max_iter'' \<notin> set (map fst kw)"
  shows "svc_simulations (constant_clf 1) kw (demo_ds k) [0..<50] (replicate 50 0) () =
         Some (demo_rates, ())"
  by (rule unit_run) (simp only: svc_error_rates [OF computes_constant] demo_svc_rates [OF assms])

lemma demo_mars_run:
  "mars_simulations (constant_clf 1) (demo_ds k) [0..<50] (replicate 50 0) () =
   Some (demo_rates, ())"
  by (rule unit_run) (simp only: mars_error_rates [OF computes_constant] demo_mars_rates)

lemma demo_rates_mean: "np_mean demo_rates = 1 / 50"
  by (simp add: np_mean_def demo_rates_def sum_list_replicate)

lemma demo_rates_squares:
  "sum_list (map (\<lambda>x. (x - 1 / 50)\<^sup>2) demo_rates) = 49 / 50"
  by (simp add: demo_rates_def power2_eq_square sum_list_replicate)

lemma sqrt_49_2500: "sqrt (49 / 2500) = 7 / 50"
  by (rule real_sqrt_unique) (simp_all add: power2_eq_square)

lemma demo_rates_std: "np_std demo_rates = 7 / 50"
proof -
  have "map (\<lambda>x. \<bar>x - np_mean demo_rates\<bar>\<^sup>2) demo_rates = map (\<lambda>x. (x - 1 / 50)\<^sup>2) demo_rates"
    by (simp add: demo_rates_mean)
  then have "np_mean (map (\<lambda>x. \<bar>x - np_mean demo_rates\<bar>\<^sup>2) demo_rates) = 49 / 2500"
    using demo_rates_squares by (simp add: np_mean_def demo_rates_def)
  then show ?thesis
    by (simp only: np_std_def sqrt_49_2500)
qed

lemma demo_svc_estimate:
  assumes "''C'' \<notin> set (map fst kw)" and "''max_iter'' \<notin> set (map fst kw)"
  shows "estimate_svc_on_data (constant_clf 1) kw (demo_ds k) () =
         Some ((1 / 50, 7 / 50 / sqrt 50), ())"
  by (simp add: estimate_svc_on_data_def demo_svc_run [OF assms] demo_rates_mean demo_rates_std)

lemma demo_mars_estimate:
  "estimate_mars_on_data (constant_clf 1) (demo_ds k) () =
   Some ((1 / 50, 7 / 50 / sqrt 50), ())"
  by (simp add: estimate_mars_on_data_def demo_mars_run demo_rates_mean demo_rates_std)

lemma linear_kwargs_fresh:
  "''C'' \<notin> set (map fst [(''kernel'', Str ''linear'')])"
  "''max_iter'' \<notin> set (map fst [(''kernel'', Str ''linear'')])"
  by simp_all

theorem estimators_return_mean_and_standard_error_witness:
  "(\<exists>error_rates.
      svc_simulations (constant_clf 1) [(''kernel'', Str ''linear'')] (demo_ds 4) [0..<50]
        (replicate 50 0) () = Some (error_rates, ())
      \<and> length error_rates = 50
      \<and> 1 / 50 = sum_list error_rates / 50
      \<and> 7 / 50 / sqrt 50 =
          sqrt (sum_list (map (\<lambda>x. (x - 1 / 50)\<^sup>2) error_rates) / 50) / sqrt 50)
   \<and> (\<exists>error_rates.
      mars_simulations (constant_clf 1) (demo_ds 4) [0..<50] (replicate 50 0) ()
        = Some (error_rates, ())
      \<and> length error_rates = 50
      \<and> 1 / 50 = sum_list error_rates / 50
      \<and> 7 / 50 / sqrt 50 =
          sqrt (sum_list (map (\<lambda>x. (x - 1 / 50)\<^sup>2) error_rates) / 50) / sqrt 50)"
  using estimators_return_mean_and_standard_error
    [of "constant_clf 1" "[(''kernel'', Str ''linear'')]" "demo_ds 4" "()" "1 / 50"
        "7 / 50 / sqrt 50" "()" "constant_clf 1"]
    demo_svc_estimate [OF linear_kwargs_fresh, of 4] demo_mars_estimate [of 4]
  by blast

theorem estimates_within_bounds_witness:
  "estimate_svc_on_data (constant_clf 1) [(''kernel'', Str ''linear'')] (demo_ds 4) ()
     = Some ((1 / 50, 7 / 50 / sqrt 50), ())
   \<and> estimate_mars_on_data (constant_clf 1) (demo_ds 4) ()
     = Some ((1 / 50, 7 / 50 / sqrt 50), ())
   \<and> (0::real) \<le> 1 / 50 \<and> (1::real) / 50 \<le> 1
   \<and> 0 \<le> 7 / 50 / sqrt 50 \<and> 7 / 50 / sqrt 50 \<le> 1 / sqrt 50"
  using estimates_within_bounds
    [of "constant_clf 1" "[(''kernel'', Str ''linear'')]" "demo_ds 4" "()" "1 / 50"
        "7 / 50 / sqrt 50" "()" "constant_clf 1"]
    demo_svc_estimate [OF linear_kwargs_fresh, of 4] demo_mars_estimate [of 4]
  by blast

theorem estimators_deterministic_witness:
  "computes (logged (constant_predictor 1)) (constant_predictor 1)
   \<and> map_option fst
        (estimate_svc_on_data (logged (constant_predictor 1)) [(''kernel'', Str ''linear'')]
           (demo_ds 4) [])
     = map_option fst
        (estimate_svc_on_data (logged (constant_predictor 1)) [(''kernel'', Str ''linear'')]
           (demo_ds 4) [([], demo_ds 4, [1])])
   \<and> map_option fst (estimate_mars_on_data (logged (constant_predictor 1)) (demo_ds 4) [])
     = map_option fst
        (estimate_mars_on_data (logged (constant_predictor 1)) (demo_ds 4) [([], demo_ds 4, [1])])
   \<and> map_option fst
        (estimate_svc_on_data (logged (constant_predictor 1)) [(''kernel'', Str ''linear'')]
           (demo_ds 4) [])
     = Some (1 / 50, 7 / 50 / sqrt 50)"
proof -
  have "map_option fst
          (estimate_svc_on_data (logged (constant_predictor 1)) [(''kernel'', Str ''linear'')]
             (demo_ds 4) [])
        = Some (1 / 50, 7 / 50 / sqrt 50)"
    by (simp add: estimate_svc_pure [OF computes_logged] demo_svc_rates [OF linear_kwargs_fresh]
        demo_rates_mean demo_rates_std)
  with estimators_deterministic [OF computes_logged computes_logged computes_logged computes_logged]
    computes_logged
  show ?thesis
    by blast
qed

theorem standard_error_uses_population_std_witness:
  "estimate_svc_on_data (constant_clf 1) [(''kernel'', Str ''linear'')] (demo_ds 4) ()
     = Some ((1 / 50, 7 / 50 / sqrt 50), ())
   \<and> (\<exists>error_rates.
         svc_simulations (constant_clf 1) [(''kernel'', Str ''linear'')] (demo_ds 4) [0..<50]
           (replicate 50 0) () = Some (error_rates, ())
       \<and> length error_rates = 50
       \<and> 7 / 50 / sqrt 50 = population_std error_rates / sqrt (real (length error_rates)))"
  using standard_error_uses_population_std [OF demo_svc_estimate [OF linear_kwargs_fresh, of 4]]
    demo_svc_estimate [OF linear_kwargs_fresh, of 4]
  by blast

lemma demo_rates_sample_std: "sample_std demo_rates = sqrt (1 / 50)"
proof -
  have "arithmetic_mean demo_rates = 1 / 50"
    by (simp add: arithmetic_mean_def demo_rates_def sum_list_replicate)
  then have "sum_list (map (\<lambda>x. (x - arithmetic_mean demo_rates)\<^sup>2) demo_rates) = 49 / 50"
    by (simp only: demo_rates_squares)
  moreover have "length demo_rates = 50"
    by (simp add: demo_rates_def)
  ultimately show ?thesis
    by (simp add: sample_std_def)
qed

text \<open>
  Claim C8 as it is stated fails on the example: the error rates are 1 for simulation 0
  and 0 for the 49 others, the estimator returns the standard error \<open>7 / 50 / \<surd>50\<close>,
  and the sample standard deviation (divisor 49) divided by \<open>\<surd>50\<close> is \<open>1 / 50\<close>.
\<close>

theorem standard_error_sample_std_counterexample:
  "estimate_svc_on_data (constant_clf 1) [(''kernel'', Str ''linear'')] (demo_ds 4) ()
     = Some ((1 / 50, 7 / 50 / sqrt 50), ())
   \<and> svc_simulations (constant_clf 1) [(''kernel'', Str ''linear'')] (demo_ds 4) [0..<50]
        (replicate 50 0) () = Some (demo_rates, ())
   \<and> 7 / 50 / sqrt 50 \<noteq> sample_std demo_rates / sqrt (real (length demo_rates))"
proof -
  have "sqrt 50 \<noteq> 7"
  proof
    assume "sqrt 50 = 7"
    then have "(sqrt 50)\<^sup>2 = 7\<^sup>2"
      by simp
    then show False
      by simp
  qed
  moreover have "sample_std demo_rates / sqrt (real (length demo_rates)) = 1 / 50"
  proof -
    have "real (length demo_rates) = 50"
      by (simp add: demo_rates_def)
    then have "sample_std demo_rates / sqrt (real (length demo_rates)) = sqrt (1 / 50) / sqrt 50"
      by (simp only: demo_rates_sample_std)
    also have "\<dots> = 1 / (sqrt 50 * sqrt 50)"
      by (simp add: real_sqrt_divide)
    also have "\<dots> = 1 / 50"
      by simp
    finally show ?thesis .
  qed
  ultimately have "7 / 50 / sqrt 50 \<noteq> sample_std demo_rates / sqrt (real (length demo_rates))"
    by (simp add: field_simps)
  with demo_svc_estimate [OF linear_kwargs_fresh, of 4] demo_svc_run [OF linear_kwargs_fresh, of 4]
  show ?thesis
    by blast
qed

subsection \<open>The spline estimator: one fit, sign threshold\<close>

lemma mars_simulations_calls:
  assumes "mars_simulations (logged g) ds sims rates calls0 = Some (rates', calls)"
  shows "calls = calls0 @ map (\<lambda>s. (earth_kwargs, features ds (train_records ds s),
                                     labels (train_records ds s))) sims"
  using assms
proof (induction sims arbitrary: rates calls0)
  case Nil
  then show ?case by simp
next
  case (Cons s sims)
  from Cons.prems obtain train_ds test_ds y_train y_cont calls1 rates1 where
    sel: "select_sim ds s 0 = Some train_ds"
    and col: "column 2 train_ds = Some y_train"
    and call: "logged g earth_kwargs (slice_from 3 train_ds) y_train (slice_from 3 test_ds) calls0
                 = Some (y_cont, calls1)"
    and rest: "mars_simulations (logged g) ds sims rates1 calls1 = Some (rates', calls)"
    by (auto simp: bind_eq_Some_conv Let_def)
  from sel have tr: "train_ds = ds\<lparr>rows := train_records ds s\<rparr>"
    by (auto simp: select_sim_eq train_records_def split: if_splits)
  from col have y: "y_train = labels (train_records ds s)"
    by (auto simp: column_def tr labels_def split: if_splits)
  have X: "slice_from 3 train_ds = features ds (train_records ds s)"
    by (simp add: tr slice_from_def features_def)
  from call have "calls1 = calls0 @ [(earth_kwargs, features ds (train_records ds s),
                                      labels (train_records ds s))]"
    by (auto simp: logged_def X y)
  with Cons.IH [OF rest] show ?case
    by simp
qed

text \<open>
  Claim C4. Run with a classifier that records its calls, the loop of the spline
  estimator makes exactly one call for each of the 50 simulations, in order, each with
  the keyword arguments \<open>max_terms = 20\<close>, \<open>max_degree = 4\<close>,
  \<open>enable_pruning = True\<close> on the training features and labels of that simulation;
  the stored error of a simulation is the fraction of its test records whose label
  differs from the sign of the continuous prediction.
\<close>

theorem mars_fits_once_per_simulation:
  assumes "mars_simulations (logged g) ds [0..<50] (replicate 50 0) [] = Some (error_rates, calls)"
  shows "calls = map (\<lambda>s. ([(''max_terms'', Num 20), (''max_degree'', Num 4),
                             (''enable_pruning'', Bool True)],
                            features ds (train_records ds s), labels (train_records ds s)))
                   [0..<50]
       \<and> length error_rates = 50
       \<and> (\<forall>s<50. \<exists>y_cont.
             g [(''max_terms'', Num 20), (''max_degree'', Num 4), (''enable_pruning'', Bool True)]
               (features ds (train_records ds s)) (labels (train_records ds s))
               (features ds (test_records ds s)) = Some y_cont
           \<and> length y_cont = length (test_records ds s)
           \<and> error_rates ! s = error_fraction (labels (test_records ds s)) (map sgn y_cont))"
proof -
  have calls: "calls = map (\<lambda>s. (earth_kwargs, features ds (train_records ds s),
                                  labels (train_records ds s))) [0..<50]"
    using mars_simulations_calls [OF assms] by simp
  have len: "length error_rates = 50"
    using mars_simulations_fifty [OF assms] by simp
  have rates: "those (map (test_error g sgn earth_kwargs ds) [0..<50]) = Some error_rates"
    using mars_error_rates [OF computes_logged, of g ds 50 "[]"] assms by simp
  have "\<exists>y_cont. g earth_kwargs (features ds (train_records ds s)) (labels (train_records ds s))
                    (features ds (test_records ds s)) = Some y_cont
           \<and> length y_cont = length (test_records ds s)
           \<and> error_rates ! s = error_fraction (labels (test_records ds s)) (map sgn y_cont)"
    if "s < 50" for s
  proof -
    from those_map_nth [OF rates, of s] that
    have "test_error g sgn earth_kwargs ds s = Some (error_rates ! s)"
      by simp
    from test_error_Some [OF this] show ?thesis
      by blast
  qed
  with calls len show ?thesis
    unfolding earth_kwargs_def by blast
qed

lemma zero_predictions_disagree:
  assumes "length ys = length ps" and "\<forall>y \<in> set ys. y = - 1 \<or> y = (1::real)"
  shows "length (filter (\<lambda>p. p = 0) ps)
         \<le> length (filter (\<lambda>(t, p). t \<noteq> p) (zip ys (map sgn ps)))"
  using assms by (induction ys ps rule: list_induct2) auto

text \<open>
  Claim C10. In the spline estimator a test record whose continuous prediction is
  exactly 0 gets the label 0, which differs from its true label when the labels are
  \<open>-1\<close> and 1: the stored error of the simulation is at least the fraction of
  such records, and it is 1 when every prediction is 0.
\<close>

theorem mars_zero_prediction_is_error:
  assumes "computes Earth g"
    and "mars_simulations Earth ds [0..<50] (replicate 50 0) w = Some (error_rates, w')"
    and "sim_id < 50"
    and "g earth_kwargs (features ds (train_records ds sim_id))
           (labels (train_records ds sim_id)) (features ds (test_records ds sim_id)) = Some y_cont"
    and "\<forall>r \<in> set (test_records ds sim_id). r ! 2 = - 1 \<or> r ! 2 = 1"
  shows "(\<forall>i < length y_cont. y_cont ! i = 0 \<longrightarrow>
            sgn (y_cont ! i) = 0 \<and> sgn (y_cont ! i) \<noteq> labels (test_records ds sim_id) ! i)
       \<and> real (length (filter (\<lambda>p. p = 0) y_cont)) / real (length (test_records ds sim_id))
           \<le> error_rates ! sim_id
       \<and> ((\<forall>p \<in> set y_cont. p = 0) \<longrightarrow> error_rates ! sim_id = 1)"
proof -
  let ?test = "test_records ds sim_id"
  have "those (map (test_error g sgn earth_kwargs ds) [0..<50]) = Some error_rates"
    using mars_error_rates [OF assms(1), of ds 50 w] assms(2) by simp
  from those_map_nth [OF this, of sim_id] assms(3)
  have "test_error g sgn earth_kwargs ds sim_id = Some (error_rates ! sim_id)"
    by simp
  from test_error_Some [OF this] assms(4)
  have len: "length y_cont = length ?test" and ne: "?test \<noteq> []"
    and e: "error_rates ! sim_id = error_fraction (labels ?test) (map sgn y_cont)"
    by auto
  have lab: "\<forall>y \<in> set (labels ?test). y = - 1 \<or> y = 1"
    using assms(5) by (auto simp: labels_def)
  have pointwise: "sgn (y_cont ! i) = 0 \<and> sgn (y_cont ! i) \<noteq> labels ?test ! i"
    if "i < length y_cont" "y_cont ! i = 0" for i
  proof -
    from that(1) len have "labels ?test ! i \<in> set (labels ?test)"
      by (intro nth_mem) simp
    with lab have "labels ?test ! i = - 1 \<or> labels ?test ! i = 1"
      by blast
    with that(2) show ?thesis
      by auto
  qed
  have "length (filter (\<lambda>p. p = 0) y_cont)
        \<le> length (filter (\<lambda>(t, p). t \<noteq> p) (zip (labels ?test) (map sgn y_cont)))"
    using len lab by (intro zero_predictions_disagree) simp_all
  then have count: "real (length (filter (\<lambda>p. p = 0) y_cont)) / real (length ?test)
                    \<le> error_rates ! sim_id"
    unfolding e error_fraction_def by (simp add: divide_right_mono)
  have "error_rates ! sim_id = 1" if "\<forall>p \<in> set y_cont. p = 0"
  proof -
    from that have "filter (\<lambda>p. p = 0) y_cont = y_cont"
      by (simp add: filter_id_conv)
    with count len ne have "1 \<le> error_rates ! sim_id"
      by simp
    moreover have "error_rates ! sim_id \<le> 1"
      unfolding e by (rule error_fraction_bounds)
    ultimately show ?thesis
      by simp
  qed
  with pointwise count show ?thesis
    by blast
qed


theorem mars_fits_once_per_simulation_witness:
  "mars_simulations (logged (constant_predictor 1)) (demo_ds 4) [0..<50] (replicate 50 0) [] =
   Some (demo_rates,
         map (\<lambda>s. ([(''max_terms'', Num 20), (''max_degree'', Num 4),
                      (''enable_pruning'', Bool True)],
                     features (demo_ds 4) (train_records (demo_ds 4) s),
                     labels (train_records (demo_ds 4) s))) [0..<50])"
proof -
  have "map_option fst
          (mars_simulations (logged (constant_predictor 1)) (demo_ds 4) [0..<50] (replicate 50 0) [])
        = Some demo_rates"
    by (simp only: mars_error_rates [OF computes_logged] demo_mars_rates)
  then obtain calls where run:
    "mars_simulations (logged (constant_predictor 1)) (demo_ds 4) [0..<50] (replicate 50 0) []
     = Some (demo_rates, calls)"
    by auto
  from mars_fits_once_per_simulation [OF run] run show ?thesis
    by simp
qed

lemma demo_zero_run:
  "mars_simulations (constant_clf 0) (demo_ds k) [0..<50] (replicate 50 0) () =
   Some (replicate 50 1, ())"
proof -
  have "those (map (test_error (constant_predictor 0) sgn earth_kwargs (demo_ds k)) [0..<50]) =
        Some (map (\<lambda>_. 1) [0..<50])"
    by (intro those_map_const) (simp add: demo_test_error demo_label_def)
  then have "those (map (test_error (constant_predictor 0) sgn earth_kwargs (demo_ds k)) [0..<50]) =
        Some (replicate 50 1)"
    by (simp add: map_replicate_const)
  then show ?thesis
    by (intro unit_run) (simp only: mars_error_rates [OF computes_constant])
qed

theorem mars_zero_prediction_is_error_witness:
  "computes (constant_clf 0 :: unit classifier) (constant_predictor 0)
   \<and> mars_simulations (constant_clf 0) (demo_ds 4) [0..<50] (replicate 50 0) ()
       = Some (replicate 50 1, ())
   \<and> constant_predictor 0 earth_kwargs (features (demo_ds 4) (train_records (demo_ds 4) 3))
        (labels (train_records (demo_ds 4) 3)) (features (demo_ds 4) (test_records (demo_ds 4) 3))
       = Some [0]
   \<and> labels (test_records (demo_ds 4) 3) = [1]
   \<and> real (length (filter (\<lambda>p. p = 0) [0::real])) / real (length (test_records (demo_ds 4) 3))
       \<le> replicate 50 (1::real) ! 3
   \<and> replicate 50 (1::real) ! 3 = 1"
proof -
  have c: "computes (constant_clf 0 :: unit classifier) (constant_predictor 0)"
    by (rule computes_constant)
  have lt: "(3::nat) < 50"
    by simp
  have pred: "constant_predictor 0 earth_kwargs (features (demo_ds 4) (train_records (demo_ds 4) 3))
        (labels (train_records (demo_ds 4) 3)) (features (demo_ds 4) (test_records (demo_ds 4) 3))
       = Some [0]"
    by (simp add: constant_predictor_def features_def demo_test_records)
  have lab: "\<forall>r \<in> set (test_records (demo_ds 4) 3). r ! 2 = - 1 \<or> r ! 2 = 1"
    by (simp add: demo_test_records demo_label_def)
  have l: "labels (test_records (demo_ds 4) 3) = [1]"
    by (simp add: demo_test_records demo_label_def labels_def)
  from mars_zero_prediction_is_error [OF c demo_zero_run lt pred lab] c demo_zero_run [of 4] pred l
  show ?thesis
    by simp
qed

subsection \<open>The Bayes row of the results table\<close>

lemma notebook_Some:
  assumes "notebook SVC Earth fmt3 no_noise_ds six_noise_ds w = Some (out, w')"
  shows "\<exists>b r1 r2 r3 r4 r5.
           bayes_error_rate no_noise_ds six_noise_ds = Some b
         \<and> out = [fmt3 b] @ print_table fmt3 [r1, r2, r3, r4, r5] b"
  using assms unfolding notebook_def Let_def
  by (auto simp: bind_eq_Some_conv simp del: split_paired_Ex) blast

lemma print_table_rows:
  "length (print_table fmt3 [r1, r2, r3, r4, r5] b) = 9"
  "print_table fmt3 [r1, r2, r3, r4, r5] b ! 8 = bayes_row fmt3 b"
  by (simp_all add: print_table_def names_def nth_append)

text \<open>
  Claim C5. When the notebook runs through on tables of the documented shape, the Bayes
  error rate is one value \<open>b\<close>: the error fraction of the decision rule on the test
  records of the noise-free table stacked on the first seven columns of the noisy table.
  Cell 3 prints it, and the last line of the table shows the same \<open>b\<close> twice, under
  the column without noise and under the column with six noise features.
\<close>

theorem bayes_rate_printed_under_both_columns:
  assumes "wf_array no_noise_ds" and "wf_array six_noise_ds"
    and "ncols no_noise_ds = 7" and "7 \<le> ncols six_noise_ds"
    and "notebook SVC Earth fmt3 no_noise_ds six_noise_ds w = Some (out, w')"
  shows "\<exists>b. bayes_error_rate no_noise_ds six_noise_ds = Some b
           \<and> b = misclassified_fraction shell_rule
                   (pooled_test_records no_noise_ds six_noise_ds)
           \<and> length out = 10
           \<and> out ! 0 = fmt3 b
           \<and> out ! 9 = ''Bayes '' @ rjust 23 (fmt3 b) @ '' '' @ rjust 19 (fmt3 b)"
proof -
  from notebook_Some [OF assms(5)] obtain b r1 r2 r3 r4 r5 where
    b: "bayes_error_rate no_noise_ds six_noise_ds = Some b"
    and out: "out = [fmt3 b] @ print_table fmt3 [r1, r2, r3, r4, r5] b"
    by blast
  from b have "b = misclassified_fraction shell_rule (pooled_test_records no_noise_ds six_noise_ds)"
    unfolding bayes_error_rate_pooled [OF assms(1-4)] by (simp split: if_splits)
  moreover have "length out = 10" "out ! 0 = fmt3 b"
    by (simp_all add: out print_table_rows)
  moreover have "out ! 9 = bayes_row fmt3 b"
    using print_table_rows(2) [of fmt3 r1 r2 r3 r4 r5 b] by (simp add: out)
  ultimately show ?thesis
    using b by (simp add: bayes_row_def)
qed


subsection \<open>The notebook on the example\<close>

lemma demo_wf: "wf_array (demo_ds k)"
  by (auto simp: wf_array_def demo_ds_def demo_rows_def list_all_iff)

lemma demo_take7: "map (take 7) (demo_rows 10 n) = demo_rows 4 n"
  by (induction n) (simp_all add: demo_rows_Suc, simp add: demo_rows_def)

lemma demo_flag_test:
  "filter (\<lambda>r. r ! 1 = 1) (demo_rows k n) =
   map (\<lambda>i. real i # 1 # demo_label i # replicate k 0) [0..<n]"
  by (induction n) (simp_all add: demo_rows_Suc, simp add: demo_rows_def)

lemma demo_pooled:
  "pooled_test_records (demo_ds 4) (demo_ds 10) =
   map (\<lambda>i. real i # 1 # demo_label i # replicate 4 0) [0..<50]
   @ map (\<lambda>i. real i # 1 # demo_label i # replicate 4 0) [0..<50]"
  using demo_flag_test [of 4 50]
  by (simp add: pooled_test_records_def demo_ds_def demo_take7 del: upt_rec_numeral)

lemma demo_misclassified:
  "filter (\<lambda>r. shell_rule r \<noteq> r ! 2)
     (map (\<lambda>i. real i # 1 # demo_label i # replicate 4 0) [0..<50]) =
   [[0, 1, - 1, 0, 0, 0, 0]]"
proof -
  have rule: "shell_rule (real i # 1 # demo_label i # replicate 4 0) = 1" for i
    by (simp add: shell_rule_def squared_norm4_def numeral_eq_Suc)
  have "filter (\<lambda>i. demo_label i \<noteq> 1) [1..<50] = []"
    by (simp add: demo_label_def del: upt_rec_numeral)
  moreover have "[0..<50] = 0 # [1..<50]"
    by (simp add: upt_conv_Cons)
  ultimately have f: "filter (\<lambda>i. demo_label i \<noteq> 1) [0..<50] = [0]"
    by (simp add: demo_label_def del: upt_rec_numeral)
  have "filter (\<lambda>r. shell_rule r \<noteq> r ! 2)
          (map (\<lambda>i. real i # 1 # demo_label i # replicate 4 0) [0..<50]) =
        map (\<lambda>i. real i # 1 # demo_label i # replicate 4 0)
          (filter (\<lambda>i. demo_label i \<noteq> 1) [0..<50])"
    by (simp add: filter_map comp_def rule del: upt_rec_numeral)
  also have "\<dots> = [real 0 # 1 # demo_label 0 # replicate 4 0]"
    by (simp only: f list.map)
  also have "\<dots> = [[0, 1, - 1, 0, 0, 0, 0]]"
    by (simp add: demo_label_def numeral_eq_Suc)
  finally show ?thesis .
qed

lemma demo_bayes: "bayes_error_rate (demo_ds 4) (demo_ds 10) = Some (1 / 50)"
proof -
  have shape: "ncols (demo_ds 4) = 7" "7 \<le> ncols (demo_ds 10)"
    by (simp_all add: demo_ds_def)
  have "filter (\<lambda>r. shell_rule r \<noteq> r ! 2) (pooled_test_records (demo_ds 4) (demo_ds 10)) =
        [[0, 1, - 1, 0, 0, 0, 0], [0, 1, - 1, 0, 0, 0, 0]]"
    by (simp only: demo_pooled filter_append demo_misclassified append.simps)
  moreover have "length (pooled_test_records (demo_ds 4) (demo_ds 10)) = 100"
    by (simp add: demo_pooled del: upt_rec_numeral)
  ultimately
  have "misclassified_fraction shell_rule (pooled_test_records (demo_ds 4) (demo_ds 10)) = 1 / 50"
    by (simp add: misclassified_fraction_def)
  moreover have "pooled_test_records (demo_ds 4) (demo_ds 10) \<noteq> []"
    by (simp add: demo_pooled del: upt_rec_numeral)
  moreover
  have "\<not> continuous_target (map (\<lambda>r. r ! 2) (pooled_test_records (demo_ds 4) (demo_ds 10)))"
    by (rule signs_not_continuous) (auto simp: demo_pooled demo_label_def simp del: upt_rec_numeral)
  ultimately show ?thesis
    by (simp add: bayes_error_rate_pooled [OF demo_wf demo_wf shape])
qed

lemma poly_kwargs_fresh:
  "''C'' \<notin> set (map fst (poly_kwargs d))" "''max_iter'' \<notin> set (map fst (poly_kwargs d))"
  by (simp_all add: poly_kwargs_def)

lemma demo_svc_both:
  assumes "''C'' \<notin> set (map fst kw)" and "''max_iter'' \<notin> set (map fst kw)"
  shows "estimate_svc_without_and_with_noise (constant_clf 1) kw (demo_ds 4) (demo_ds 10) () =
         Some ((1 / 50, 7 / 50 / sqrt 50, 1 / 50, 7 / 50 / sqrt 50), ())"
  by (simp add: estimate_svc_without_and_with_noise_def demo_svc_estimate [OF assms])

lemma demo_notebook:
  "notebook (constant_clf 1) (constant_clf 1) fmt3 (demo_ds 4) (demo_ds 10) () =
   Some ([fmt3 (1 / 50)]
         @ print_table fmt3
             [(1 / 50, 7 / 50 / sqrt 50, 1 / 50, 7 / 50 / sqrt 50),
              (1 / 50, 7 / 50 / sqrt 50, 1 / 50, 7 / 50 / sqrt 50),
              (1 / 50, 7 / 50 / sqrt 50, 1 / 50, 7 / 50 / sqrt 50),
              (1 / 50, 7 / 50 / sqrt 50, 1 / 50, 7 / 50 / sqrt 50),
              (1 / 50, 7 / 50 / sqrt 50, 1 / 50, 7 / 50 / sqrt 50)] (1 / 50), ())"
  by (simp add: notebook_def demo_bayes demo_svc_both [OF linear_kwargs_fresh]
      demo_svc_both [OF poly_kwargs_fresh] demo_mars_estimate)


theorem bayes_rate_printed_under_both_columns_witness:
  "bayes_error_rate (demo_ds 4) (demo_ds 10) = Some (1 / 50)
   \<and> (\<exists>out. notebook (constant_clf 1) (constant_clf 1)
                (\<lambda>x. if x = 1 / 50 then ''0.020'' else ''?'') (demo_ds 4) (demo_ds 10) ()
              = Some (out, ())
           \<and> length out = 10
           \<and> out ! 0 = ''0.020''
           \<and> out ! 9 = ''Bayes                   0.020               0.020'')"
proof -
  let ?fmt = "\<lambda>x::real. if x = 1 / 50 then ''0.020'' else ''?''"
  have shape: "ncols (demo_ds 4) = 7" "7 \<le> ncols (demo_ds 10)"
    by (simp_all add: demo_ds_def)
  obtain out where run:
    "notebook (constant_clf 1) (constant_clf 1) ?fmt (demo_ds 4) (demo_ds 10) () = Some (out, ())"
    using demo_notebook [of ?fmt] by blast
  from bayes_rate_printed_under_both_columns [OF demo_wf demo_wf shape run]
  have "length out = 10" and "out ! 0 = ?fmt (1 / 50)"
    and "out ! 9 = ''Bayes '' @ rjust 23 (?fmt (1 / 50)) @ '' '' @ rjust 19 (?fmt (1 / 50))"
    by (auto simp: demo_bayes)
  moreover have "rjust 23 ''0.020'' = replicate 18 CHR '' '' @ ''0.020''"
    "rjust 19 ''0.020'' = replicate 14 CHR '' '' @ ''0.020''"
    by (simp_all add: rjust_def)
  ultimately have "length out = 10" and "out ! 0 = ''0.020''"
    and "out ! 9 = ''Bayes                   0.020               0.020''"
    by (simp_all add: numeral_eq_Suc)
  with run demo_bayes show ?thesis
    by blast
qed

subsection \<open>The sweep on the example with cost-dependent errors\<close>

lemma computes_stateless: "computes (stateless g) g"
  by (simp add: computes_def stateless_def option.map_comp comp_def option.map_ident)

lemma sweep_rows_Suc:
  "sweep_rows (Suc n) =
     sweep_rows n @ [[real n, 0, 1, 0], [real n, 1, - 1, 0], [real n, 1, 1, 0],
                     [real n, 1, 1, 2], [real n, 1, - 1, 4]]"
  by (simp add: sweep_rows_def)

lemma sweep_rows_train:
  "filter (\<lambda>r. r ! 0 = real s \<and> r ! 1 = 0) (sweep_rows n) =
     (if s < n then [[real s, 0, 1, 0]] else [])"
  by (induction n) (auto simp: sweep_rows_Suc less_Suc_eq, simp add: sweep_rows_def)

lemma sweep_rows_test:
  "filter (\<lambda>r. r ! 0 = real s \<and> r ! 1 = 1) (sweep_rows n) =
     (if s < n then [[real s, 1, - 1, 0], [real s, 1, 1, 0], [real s, 1, 1, 2],
                     [real s, 1, - 1, 4]] else [])"
  by (induction n) (auto simp: sweep_rows_Suc less_Suc_eq, simp add: sweep_rows_def)

lemma sweep_train_records:
  "s < 50 \<Longrightarrow> train_records sweep_ds s = [[real s, 0, 1, 0]]"
  using sweep_rows_train [of s 50] by (simp add: train_records_def sweep_ds_def)

lemma sweep_test_records:
  "s < 50 \<Longrightarrow> test_records sweep_ds s =
     [[real s, 1, - 1, 0], [real s, 1, 1, 0], [real s, 1, 1, 2], [real s, 1, - 1, 4]]"
  using sweep_rows_test [of s 50] by (simp add: test_records_def sweep_ds_def)

lemma sweep_prediction:
  assumes "s < 50" and "0 < c"
  shows "cost_predictor ((''C'', Num c) # kw) (features sweep_ds (train_records sweep_ds s))
           (labels (train_records sweep_ds s)) (features sweep_ds (test_records sweep_ds s)) =
         Some [1, 1, if 2 < c then 1 else - 1, if 4 < c then 1 else - 1]"
  using assms by (simp add: cost_predictor_def features_def sweep_test_records)

lemma sweep_labels: "s < 50 \<Longrightarrow> labels (test_records sweep_ds s) = [- 1, 1, 1, - 1]"
  by (simp add: labels_def sweep_test_records)

lemma sweep_test_error:
  assumes "s < 50" and "0 < c"
  shows "test_error cost_predictor id ((''C'', Num c) # kw) sweep_ds s =
         Some ((1 + of_bool (c \<le> 2) + of_bool (4 < c)) / 4)"
proof -
  let ?p = "[1, 1, if 2 < c then 1 else - 1, if 4 < c then 1 else - 1 :: real]"
  have "scorable [- 1, 1, 1, - 1] ?p"
    by (auto simp: scorable_def intro!: signs_not_continuous)
  moreover have "error_fraction [- 1, 1, 1, - 1] ?p = (1 + of_bool (c \<le> 2) + of_bool (4 < c)) / 4"
    by (auto simp: error_fraction_def)
  moreover have "\<not> ncols sweep_ds < 3"
    by (simp add: sweep_ds_def)
  ultimately show ?thesis
    by (simp add: test_error_def sweep_prediction [OF assms] sweep_labels [OF assms(1)])
qed

lemma grid_positive: "\<forall>c \<in> set (linspace 0.01 5 20). 0 < c"
proof
  fix c :: real assume "c \<in> set (linspace 0.01 5 20)"
  then obtain i where "c = 0.01 + real i * ((5 - 0.01) / 19)"
    by (auto simp: linspace_def)
  moreover have "0 \<le> real i * ((5 - 0.01) / 19)"
    by simp
  ultimately show "0 < c"
    by simp
qed

lemma sweep_svc_min_error:
  assumes "s < 50" and "''C'' \<notin> set (map fst kw)" and "''max_iter'' \<notin> set (map fst kw)"
  shows "svc_min_error cost_predictor kw sweep_ds s = Some (1 / 4)"
proof -
  let ?grid = "linspace 0.01 5 20"
  let ?h = "\<lambda>c::real. (1 + of_bool (c \<le> 2) + of_bool (4 < c)) / (4::real)"
  have "\<forall>c \<in> set ?grid. svc_test_error cost_predictor kw sweep_ds s c = Some (?h c)"
    using grid_positive assms by (simp add: svc_test_error_def sweep_test_error)
  then have errs: "those (map (svc_test_error cost_predictor kw sweep_ds s) ?grid) =
                   Some (map ?h ?grid)"
    by (rule those_map_const)
  have "Min (set (map ?h ?grid)) = 1 / 4"
  proof (rule Min_eqI)
    show "finite (set (map ?h ?grid))"
      by simp
    show "1 / 4 \<le> y" if "y \<in> set (map ?h ?grid)" for y
      using that by auto
    have "?grid ! 8 \<in> set ?grid"
      by (intro nth_mem) (simp add: grid_length)
    then have "?h (?grid ! 8) \<in> ?h ` set ?grid"
      by (rule imageI)
    moreover have "?h (?grid ! 8) = 1 / 4"
      by (simp add: grid_nth)
    ultimately have "1 / 4 \<in> ?h ` set ?grid"
      by (simp only:)
    then show "1 / 4 \<in> set (map ?h ?grid)"
      by (simp only: set_map)
  qed
  then show ?thesis
    by (simp only: svc_min_error_def errs option.map)
qed

lemma sweep_svc_run:
  assumes "''C'' \<notin> set (map fst kw)" and "''max_iter'' \<notin> set (map fst kw)"
  shows "svc_simulations (stateless cost_predictor) kw sweep_ds [0..<50] (replicate 50 0) () =
         Some (replicate 50 (1 / 4), ())"
proof -
  have "those (map (svc_min_error cost_predictor kw sweep_ds) [0..<50]) =
        Some (map (\<lambda>_. 1 / 4) [0..<50])"
    using assms by (intro those_map_const) (simp add: sweep_svc_min_error)
  then have "those (map (svc_min_error cost_predictor kw sweep_ds) [0..<50]) =
        Some (replicate 50 (1 / 4))"
    by (simp add: map_replicate_const)
  then show ?thesis
    by (intro unit_run) (simp only: svc_error_rates [OF computes_stateless])
qed

theorem svc_error_is_grid_minimum_witness:
  "computes (stateless cost_predictor :: unit classifier) cost_predictor
   \<and> svc_simulations (stateless cost_predictor) [(''kernel'', Str ''linear'')] sweep_ds [0..<50]
        (replicate 50 0) () = Some (replicate 50 (1 / 4), ())
   \<and> test_error cost_predictor id
        [(''C'', Num 0.01), (''max_iter'', Num 100000), (''kernel'', Str ''linear'')] sweep_ds 3
       = Some (1 / 2)
   \<and> test_error cost_predictor id
        [(''C'', Num 5), (''max_iter'', Num 100000), (''kernel'', Str ''linear'')] sweep_ds 3
       = Some (1 / 2)
   \<and> (\<exists>errs. length errs = 20
         \<and> (\<forall>i<20. \<exists>y_pred.
               cost_predictor ((''C'', Num (0.01 + real i * ((5 - 0.01) / 19)))
                    # (''max_iter'', Num 100000) # [(''kernel'', Str ''linear'')])
                 (features sweep_ds (train_records sweep_ds 3)) (labels (train_records sweep_ds 3))
                 (features sweep_ds (test_records sweep_ds 3)) = Some y_pred
             \<and> length y_pred = length (test_records sweep_ds 3)
             \<and> errs ! i = error_fraction (labels (test_records sweep_ds 3)) y_pred)
         \<and> replicate 50 (1 / 4) ! 3 = Min (set errs)
         \<and> (\<forall>i<20. replicate 50 (1 / 4) ! 3 \<le> errs ! i))"
proof -
  have c: "computes (stateless cost_predictor :: unit classifier) cost_predictor"
    by (rule computes_stateless)
  have run: "svc_simulations (stateless cost_predictor) [(''kernel'', Str ''linear'')] sweep_ds
               [0..<50] (replicate 50 0) () = Some (replicate 50 (1 / 4), ())"
    by (rule sweep_svc_run [OF linear_kwargs_fresh])
  have lt: "(3::nat) < 50"
    by simp
  have first: "test_error cost_predictor id
        [(''C'', Num 0.01), (''max_iter'', Num 100000), (''kernel'', Str ''linear'')] sweep_ds 3
       = Some (1 / 2)"
    using sweep_test_error [OF lt, of "0.01"] by simp
  have last: "test_error cost_predictor id
        [(''C'', Num 5), (''max_iter'', Num 100000), (''kernel'', Str ''linear'')] sweep_ds 3
       = Some (1 / 2)"
    using sweep_test_error [OF lt, of 5] by simp
  from svc_error_is_grid_minimum [OF c run lt] c run first last show ?thesis
    by (intro conjI)
qed

end
